theory Spec2Isabelle
  imports Main "HOL-Library.Word"
begin

unbundle bit_operations_syntax

section \<open>The node tree of the local cache (src/cache/local_cache.c)\<close>

text \<open>
  A C \<open>int\<close> is a 32-bit word; \<open>time_t\<close> is a signed integer read as \<open>int\<close>.
  The \<open>parent\<close> pointer of \<open>struct cache_node\<close> is the position of the node in the
  tree; the \<open>children\<close> hash table is the list of children in insertion order
  (the order of \<open>HASH_ITER\<close>), looked up by \<open>basename\<close>. \<open>cache_download\<close> adds a child
  only after the lookup of its key failed, so the keys of siblings are distinct in
  every tree it builds; two siblings with one key can only come from a metadata.json
  that lists the key twice, and the lookup then answers with the first of them.
\<close>

type_synonym c_int = "32 word"
type_synonym time_t = int

definition CNF_DIRECT :: c_int where "CNF_DIRECT = push_bit 0 1"
definition CNF_SUCCESS :: c_int where "CNF_SUCCESS = push_bit 1 1"
definition CNF_FOUND :: c_int where "CNF_FOUND = push_bit 2 1"
definition CNF_FILE :: c_int where "CNF_FILE = push_bit 3 1"

datatype cache_node = Node
  (basename: string)
  (flags: c_int)
  (ts_success: time_t)
  (ts_attempt: time_t)
  (error: c_int)
  (children: "cache_node list")

record cache =
  rsync :: "cache_node option"
  https :: "cache_node option"
  startup_time :: time_t

text \<open>\<open>HASH_FIND_STR(node->children, token, child)\<close>; \<open>None\<close> is \<open>child == NULL\<close>.\<close>

definition find_child :: "cache_node list \<Rightarrow> string \<Rightarrow> cache_node option" where
  "find_child cs token = find (\<lambda>c. basename c = token) cs"

text \<open>The node found under a key is written back in place after the code mutated it.\<close>

fun replace_child :: "cache_node list \<Rightarrow> string \<Rightarrow> cache_node \<Rightarrow> cache_node list" where
  "replace_child [] token c' = []"
| "replace_child (c # cs) token c' =
     (if basename c = token then c' # cs else c # replace_child cs token c')"

text \<open>\<open>add_child\<close>: a zeroed node (\<open>pzalloc\<close>) with the given basename.\<close>

definition new_node :: "string \<Rightarrow> cache_node" where
  "new_node name = Node name 0 0 0 0 []"

definition init_root :: "cache_node option \<Rightarrow> string \<Rightarrow> cache_node option" where
  "init_root root name = (case root of Some r \<Rightarrow> Some r | None \<Rightarrow> Some (new_node name))"

definition set_flags :: "c_int \<Rightarrow> cache_node \<Rightarrow> cache_node" where
  "set_flags f n = Node (basename n) f (ts_success n) (ts_attempt n) (error n) (children n)"

definition set_children :: "cache_node list \<Rightarrow> cache_node \<Rightarrow> cache_node" where
  "set_children cs n = Node (basename n) (flags n) (ts_success n) (ts_attempt n) (error n) cs"

definition was_recently_downloaded :: "time_t \<Rightarrow> cache_node \<Rightarrow> bool" where
  "was_recently_downloaded startup node \<longleftrightarrow>
     flags node AND CNF_DIRECT \<noteq> 0 \<and> startup \<le> ts_attempt node"

section \<open>URIs, fetchers and the trace of external calls\<close>

datatype uri_type = UT_RSYNC | UT_HTTPS | UT_CAGED

record rpki_uri =
  uri_get_type :: uri_type
  uri_get_local :: string

text \<open>
  \<open>strtok_r(s, "/", &saveptr)\<close> called until it returns NULL: the maximal runs of
  characters other than the delimiter, in order; empty tokens are never returned.
\<close>

fun tokens_acc :: "char \<Rightarrow> string \<Rightarrow> string \<Rightarrow> string list" where
  "tokens_acc d acc [] = (if acc = [] then [] else [acc])"
| "tokens_acc d acc (c # cs) =
     (if c = d then (if acc = [] then tokens_acc d [] cs else acc # tokens_acc d [] cs)
      else tokens_acc d (acc @ [c]) cs)"

definition strtok_all :: "char \<Rightarrow> string \<Rightarrow> string list" where
  "strtok_all d s = tokens_acc d [] s"

text \<open>
  The fetchers are external (\<open>rsync_download\<close>, \<open>http_download\<close>), and so is the clock:
  \<open>time_now\<close> is what \<open>time(NULL)\<close> returns after the fetch. Every call that leaves the
  process is recorded in a trace: the two fetchers and \<open>delete_node_file(node, is_file)\<close>
  with the path of the node from its root.
\<close>

record fetchers =
  rsync_download :: "rpki_uri \<Rightarrow> c_int"
  http_download :: "rpki_uri \<Rightarrow> c_int \<times> bool"
  time_now :: time_t

datatype event =
  Rsync_download rpki_uri
| Http_download rpki_uri
| Delete_node_file "string list" bool

fun is_fetch :: "event \<Rightarrow> bool" where
  "is_fetch (Rsync_download u) = True"
| "is_fetch (Http_download u) = True"
| "is_fetch (Delete_node_file p f) = False"

definition fetched :: "event list \<Rightarrow> bool" where
  "fetched evs = list_ex is_fetch evs"

text \<open>\<open>pr_crit\<close> aborts the process; a NULL root is dereferenced before \<open>cache_prepare\<close>.\<close>

datatype abort = Unexpected_URI_type | Time_returned_minus_1 | Null_root

type_synonym outcome = "cache_node \<times> c_int \<times> bool \<times> event list"

section \<open>\<open>cache_download\<close>\<close>

text \<open>
  Lines 436-445: the target node after the fetch returned \<open>err\<close> and the clock \<open>now\<close>.
  \<open>drop_children\<close> destroys every child.
\<close>

definition update_node :: "bool \<Rightarrow> time_t \<Rightarrow> c_int \<Rightarrow> cache_node \<Rightarrow> abort + cache_node" where
  "update_node recursive now err node =
     (if now = -1 then Inl Time_returned_minus_1
      else Inr (Node (basename node)
             (if err = 0 then CNF_DIRECT OR (CNF_SUCCESS OR (if recursive then 0 else CNF_FILE))
              else CNF_DIRECT)
             (if err = 0 then now else ts_success node)
             now err []))"

text \<open>The label \<open>download:\<close> (lines 424-445); \<open>evs\<close> is the trace so far.\<close>

definition download ::
  "fetchers \<Rightarrow> rpki_uri \<Rightarrow> bool \<Rightarrow> event list \<Rightarrow> cache_node \<Rightarrow> abort + outcome" where
  "download fx uri recursive evs node =
     (case uri_get_type uri of
        UT_RSYNC \<Rightarrow>
          (case update_node recursive (time_now fx) (rsync_download fx uri) node of
             Inl a \<Rightarrow> Inl a
           | Inr n \<Rightarrow> Inr (n, rsync_download fx uri, False, evs @ [Rsync_download uri]))
      | UT_HTTPS \<Rightarrow>
          (case update_node recursive (time_now fx) (fst (http_download fx uri)) node of
             Inl a \<Rightarrow> Inl a
           | Inr n \<Rightarrow> Inr (n, fst (http_download fx uri), snd (http_download fx uri),
                          evs @ [Http_download uri]))
      | UT_CAGED \<Rightarrow> Inl Unexpected_URI_type)"

text \<open>
  Lines 396-401: no child has the token, so the remaining tokens become a chain of new
  nodes and the deepest one is the target of the fetch. The result is the new child of
  the node where the lookup failed.
\<close>

fun add_chain ::
  "fetchers \<Rightarrow> rpki_uri \<Rightarrow> bool \<Rightarrow> event list \<Rightarrow> string \<Rightarrow> string list \<Rightarrow> abort + outcome" where
  "add_chain fx uri recursive evs token [] = download fx uri recursive evs (new_node token)"
| "add_chain fx uri recursive evs token (t # ts) =
     (case add_chain fx uri recursive evs t ts of
        Inl a \<Rightarrow> Inl a
      | Inr (c, r, ch, evs') \<Rightarrow> Inr (set_children [c] (new_node token), r, ch, evs'))"

text \<open>
  The loop of lines 386-412 and the code after it, from a node whose path from the
  root is \<open>pb\<close>, with the tokens still to consume.
\<close>

fun descend ::
  "fetchers \<Rightarrow> rpki_uri \<Rightarrow> bool \<Rightarrow> time_t \<Rightarrow> string list \<Rightarrow> cache_node \<Rightarrow> string list
     \<Rightarrow> abort + outcome" where
  "descend fx uri recursive startup pb node [] =
     (if was_recently_downloaded startup node then Inr (node, error node, False, [])
      else download fx uri recursive
             (if \<not> recursive \<and> flags node AND CNF_FILE = 0 then [Delete_node_file pb False] else [])
             node)"
| "descend fx uri recursive startup pb node (token # rest) =
     (let evs = (if flags node AND CNF_FILE \<noteq> 0 then [Delete_node_file pb True] else []);
          node1 = (if flags node AND CNF_FILE \<noteq> 0 then set_flags 0 node else node)
      in case find_child (children node1) token of
           None \<Rightarrow>
             (case add_chain fx uri recursive evs token rest of
                Inl a \<Rightarrow> Inl a
              | Inr (c, r, ch, evs') \<Rightarrow>
                  Inr (set_children (children node1 @ [c]) node1, r, ch, evs'))
         | Some child \<Rightarrow>
             if recursive \<and> was_recently_downloaded startup child \<and> error child = 0
             then Inr (node1, 0, False, evs)
             else
               (case descend fx uri recursive startup (pb @ [token]) child rest of
                  Inl a \<Rightarrow> Inl a
                | Inr (c, r, ch, evs') \<Rightarrow>
                    Inr (set_children (replace_child (children node1) token c) node1,
                         r, ch, evs @ evs')))"

text \<open>
  \<open>cache_download\<close>: the first token of the local path is consumed before the loop
  (line 371) and the root is chosen by the URI type.
\<close>

definition uri_tokens :: "rpki_uri \<Rightarrow> string list" where
  "uri_tokens uri = tl (strtok_all CHR ''/'' (uri_get_local uri))"

definition cache_download ::
  "fetchers \<Rightarrow> cache \<Rightarrow> rpki_uri \<Rightarrow> abort + (cache \<times> c_int \<times> bool \<times> event list)" where
  "cache_download fx c uri =
     (case uri_get_type uri of
        UT_RSYNC \<Rightarrow>
          (case rsync c of
             None \<Rightarrow> Inl Null_root
           | Some root \<Rightarrow>
               (case descend fx uri True (startup_time c) [basename root] root (uri_tokens uri) of
                  Inl a \<Rightarrow> Inl a
                | Inr (root', r, ch, evs) \<Rightarrow> Inr (c\<lparr>rsync := Some root'\<rparr>, r, ch, evs)))
      | UT_HTTPS \<Rightarrow>
          (case https c of
             None \<Rightarrow> Inl Null_root
           | Some root \<Rightarrow>
               (case descend fx uri False (startup_time c) [basename root] root (uri_tokens uri) of
                  Inl a \<Rightarrow> Inl a
                | Inr (root', r, ch, evs) \<Rightarrow> Inr (c\<lparr>https := Some root'\<rparr>, r, ch, evs)))
      | UT_CAGED \<Rightarrow> Inl Unexpected_URI_type)"

text \<open>The node a URI designates: the walk of its tokens from the root of its transport.\<close>

fun deepest :: "cache_node \<Rightarrow> string list \<Rightarrow> cache_node option" where
  "deepest node [] = Some node"
| "deepest node (t # ts) =
     (case find_child (children node) t of None \<Rightarrow> None | Some c \<Rightarrow> deepest c ts)"

definition uri_root :: "cache \<Rightarrow> rpki_uri \<Rightarrow> cache_node option" where
  "uri_root c uri =
     (case uri_get_type uri of UT_RSYNC \<Rightarrow> rsync c | UT_HTTPS \<Rightarrow> https c | UT_CAGED \<Rightarrow> None)"

definition uri_node :: "cache \<Rightarrow> rpki_uri \<Rightarrow> cache_node option" where
  "uri_node c uri =
     (case uri_root c uri of None \<Rightarrow> None | Some root \<Rightarrow> deepest root (uri_tokens uri))"

text \<open>
  Some existing child on the path of the tokens is fresh with a zero error: the test
  of line 404 succeeds somewhere along the walk.
\<close>

fun covered :: "time_t \<Rightarrow> cache_node \<Rightarrow> string list \<Rightarrow> bool" where
  "covered st node [] = False"
| "covered st node (t # ts) =
     (case find_child (children node) t of
        None \<Rightarrow> False
      | Some c \<Rightarrow> (was_recently_downloaded st c \<and> error c = 0) \<or> covered st c ts)"

text \<open>The URI is a file-sync URI and the test of line 404 succeeds on its path.\<close>

definition uri_covered :: "cache \<Rightarrow> rpki_uri \<Rightarrow> bool" where
  "uri_covered c uri \<longleftrightarrow>
     uri_get_type uri = UT_RSYNC \<and>
     (case rsync c of
        None \<Rightarrow> False
      | Some root \<Rightarrow> covered (startup_time c) root (uri_tokens uri))"

text \<open>What the fetcher of the URI's transport returns for it.\<close>

definition fetch_result :: "fetchers \<Rightarrow> rpki_uri \<Rightarrow> c_int" where
  "fetch_result fx uri =
     (case uri_get_type uri of
        UT_RSYNC \<Rightarrow> rsync_download fx uri
      | UT_HTTPS \<Rightarrow> fst (http_download fx uri)
      | UT_CAGED \<Rightarrow> 0)"

section \<open>The sweep: \<open>cleanup_recursive\<close> and \<open>cache_cleanup\<close>\<close>

text \<open>
  What \<open>stat\<close> reports for a path: \<open>NoEnt\<close> is the failure ENOENT (nothing there, or a
  dangling link), \<open>Stat_error\<close> any other failure, \<open>Reg\<close> a regular file, \<open>Dir ok es\<close> a
  directory whose \<open>opendir\<close> succeeds iff \<open>ok\<close> and whose \<open>readdir\<close> lists the entries
  \<open>es\<close>, \<open>Other\<close> any other file type. The path builder is not part of the sources at
  hand: \<open>path_ok\<close> says for which paths \<open>path_peek\<close> succeeds. \<open>remove\<close> and
  \<open>file_rm_rf\<close> are taken to succeed (their results are only logged), and \<open>readdir\<close>
  to end without an error. A result \<open>None\<close> for the file means the path was removed,
  a result \<open>None\<close> for the node that the node was deleted.
\<close>

datatype fnode = NoEnt | Stat_error | Reg | Dir bool "(string \<times> fnode) list" | Other

text \<open>A directory that \<open>opendir\<close> cannot open.\<close>

definition opendir_fails :: "fnode \<Rightarrow> bool" where
  "opendir_fails f = (case f of Dir ok es \<Rightarrow> \<not> ok | _ \<Rightarrow> False)"

text \<open>
  \<open>delete_node(node, force)\<close> seen from the parent: all children are deleted; the node
  itself stays only when it is a root and \<open>force\<close> is false.
\<close>

definition delete_node :: "bool \<Rightarrow> bool \<Rightarrow> cache_node \<Rightarrow> cache_node option" where
  "delete_node force is_root node =
     (if force \<or> \<not> is_root then None else Some (set_children [] node))"

fun remove_child :: "cache_node list \<Rightarrow> string \<Rightarrow> cache_node list" where
  "remove_child [] name = []"
| "remove_child (c # cs) name = (if basename c = name then cs else c # remove_child cs name)"

text \<open>Lines 555-567: children marked \<open>CNF_FOUND\<close> lose the mark, the others are deleted.\<close>

definition sweep_found :: "cache_node list \<Rightarrow> cache_node list" where
  "sweep_found cs =
     map (\<lambda>c. set_flags (flags c AND NOT CNF_FOUND) c)
       (filter (\<lambda>c. flags c AND CNF_FOUND \<noteq> 0) cs)"

definition S_ISDOTS :: "string \<Rightarrow> bool" where
  "S_ISDOTS name \<longleftrightarrow> name = ''.'' \<or> name = ''..''"

text \<open>
  \<open>cleanup_recursive\<close> for a node whose parent has the path \<open>pb\<close>, and the loop over
  the directory entries (lines 530-546) for a directory of path \<open>path\<close>.
\<close>

fun cleanup_recursive ::
  "(string list \<Rightarrow> bool) \<Rightarrow> time_t \<Rightarrow> string list \<Rightarrow> bool \<Rightarrow> cache_node \<Rightarrow> fnode
     \<Rightarrow> cache_node option \<times> fnode option"
and scan_dir ::
  "(string list \<Rightarrow> bool) \<Rightarrow> time_t \<Rightarrow> string list \<Rightarrow> cache_node list \<Rightarrow> (string \<times> fnode) list
     \<Rightarrow> cache_node list \<times> (string \<times> fnode) list"
where
  "cleanup_recursive path_ok startup pb is_root node NoEnt =
     (if \<not> path_ok (pb @ [basename node]) then (Some node, Some NoEnt)
      else (delete_node False is_root node, Some NoEnt))"
| "cleanup_recursive path_ok startup pb is_root node Stat_error = (Some node, Some Stat_error)"
| "cleanup_recursive path_ok startup pb is_root node Reg =
     (if \<not> path_ok (pb @ [basename node]) then (Some node, Some Reg)
      else if was_recently_downloaded startup node \<and> error node = 0 then (Some node, Some Reg)
      else (delete_node False is_root node, None))"
| "cleanup_recursive path_ok startup pb is_root node Other =
     (if \<not> path_ok (pb @ [basename node]) then (Some node, Some Other)
      else if was_recently_downloaded startup node \<and> error node = 0 then (Some node, Some Other)
      else (delete_node False is_root node, None))"
| "cleanup_recursive path_ok startup pb is_root node (Dir ok es) =
     (if \<not> path_ok (pb @ [basename node]) then (Some node, Some (Dir ok es))
      else if was_recently_downloaded startup node \<and> error node = 0
      then (Some node, Some (Dir ok es))
      else if \<not> ok then (Some node, Some (Dir ok es))
      else
        (case scan_dir path_ok startup (pb @ [basename node]) (children node) es of
           (cs, es') \<Rightarrow>
             if sweep_found cs = [] \<and> \<not> is_root
             then (delete_node False is_root (set_children [] node), None)
             else (Some (set_children (sweep_found cs) node), Some (Dir ok es'))))"
| "scan_dir path_ok startup path cs [] = (cs, [])"
| "scan_dir path_ok startup path cs ((name, f) # es) =
     (if S_ISDOTS name then
        (case scan_dir path_ok startup path cs es of (cs', es') \<Rightarrow> (cs', (name, f) # es'))
      else
        (case find_child cs name of
           Some child \<Rightarrow>
             (case cleanup_recursive path_ok startup path False
                     (set_flags (flags child OR CNF_FOUND) child) f of
                (r, f') \<Rightarrow>
                  (case scan_dir path_ok startup path
                          (case r of None \<Rightarrow> remove_child cs name
                                   | Some c \<Rightarrow> replace_child cs name c) es of
                     (cs', es') \<Rightarrow>
                       (cs', (case f' of None \<Rightarrow> es' | Some g \<Rightarrow> (name, g) # es'))))
         | None \<Rightarrow>
             (case scan_dir path_ok startup path cs es of
                (cs', es') \<Rightarrow>
                  (cs', if path_ok (path @ [name]) then es' else (name, f) # es'))))"

text \<open>
  \<open>cache_cleanup\<close>: both roots are swept below the local repository \<open>repo\<close>; \<open>f_rsync\<close>
  and \<open>f_https\<close> are what the disk holds at the paths of the two roots. The dump of
  the surviving tree into metadata.json follows and does not change the tree.
\<close>

definition cache_cleanup ::
  "(string list \<Rightarrow> bool) \<Rightarrow> string \<Rightarrow> cache \<Rightarrow> fnode \<Rightarrow> fnode
     \<Rightarrow> abort + (cache \<times> fnode option \<times> fnode option)" where
  "cache_cleanup path_ok repo c f_rsync f_https =
     (case rsync c of
        None \<Rightarrow> Inl Null_root
      | Some r \<Rightarrow>
          (case https c of
             None \<Rightarrow> Inl Null_root
           | Some h \<Rightarrow>
               (case cleanup_recursive path_ok (startup_time c) [repo] True r f_rsync of
                  (r', fr') \<Rightarrow>
                    (case cleanup_recursive path_ok (startup_time c) [repo] True h f_https of
                       (h', fh') \<Rightarrow> Inr (c\<lparr>rsync := r', https := h'\<rparr>, fr', fh')))))"

section \<open>JSON values (the jansson interface used by the code)\<close>

text \<open>
  A parsed document; an object is the list of its members, one value per key (the
  parser keeps one). The accessors follow jansson: \<open>json_object_get\<close> of a value that
  is not an object is NULL, \<open>json_string_value\<close> of a value that is not a string is
  NULL, \<open>json_array_size\<close> of a value that is not an array is 0. \<open>None\<close> is NULL.
  A \<open>json_int_t\<close> is read as \<open>int\<close>: jansson refuses a document with an integer
  that does not fit.
\<close>

datatype json =
  JObject "(string \<times> json) list"
| JArray "json list"
| JString string
| JInteger int
| JReal
| JTrue
| JFalse
| JNull

definition json_object_get :: "json option \<Rightarrow> string \<Rightarrow> json option" where
  "json_object_get j key = (case j of Some (JObject kvs) \<Rightarrow> map_of kvs key | _ \<Rightarrow> None)"

definition json_string_value :: "json option \<Rightarrow> string option" where
  "json_string_value j = (case j of Some (JString s) \<Rightarrow> Some s | _ \<Rightarrow> None)"

definition json_is_integer :: "json option \<Rightarrow> bool" where
  "json_is_integer j = (case j of Some (JInteger i) \<Rightarrow> True | _ \<Rightarrow> False)"

definition json_integer_value :: "json option \<Rightarrow> int" where
  "json_integer_value j = (case j of Some (JInteger i) \<Rightarrow> i | _ \<Rightarrow> 0)"

definition json_is_string :: "json option \<Rightarrow> bool" where
  "json_is_string j = (case j of Some (JString s) \<Rightarrow> True | _ \<Rightarrow> False)"

definition json_is_array :: "json option \<Rightarrow> bool" where
  "json_is_array j = (case j of Some (JArray js) \<Rightarrow> True | _ \<Rightarrow> False)"

definition json_is_object :: "json option \<Rightarrow> bool" where
  "json_is_object j = (case j of Some (JObject kvs) \<Rightarrow> True | _ \<Rightarrow> False)"

section \<open>Loading metadata.json: \<open>json2node\<close>, \<open>load_metadata_json\<close>, \<open>cache_prepare\<close>\<close>

text \<open>
  \<open>json_tt_value\<close>: \<open>strptime_mktime\<close> stands for the C library, \<open>strptime\<close> with the
  format \<open>%FT%T%z\<close> consuming the whole string followed by \<open>mktime\<close>; \<open>None\<close> is a
  string that \<open>strptime\<close> refuses.
\<close>

definition json_tt_value :: "(string \<Rightarrow> time_t option) \<Rightarrow> json option \<Rightarrow> time_t option" where
  "json_tt_value strptime_mktime j =
     (case json_string_value j of
        None \<Rightarrow> None
      | Some str \<Rightarrow>
          (case strptime_mktime str of
             None \<Rightarrow> None
           | Some tmp \<Rightarrow> if tmp = -1 then None else Some tmp))"

text \<open>
  \<open>json2node\<close> (\<open>None\<close> is the label \<open>cancel\<close>: the node built so far is deleted with
  all the children it already has) and its loop over the array of children, which
  stops at the first child that is NULL. The conversion of a \<open>json_int_t\<close> to the
  \<open>int\<close> fields keeps the low 32 bits.
\<close>

function json2node :: "(string \<Rightarrow> time_t option) \<Rightarrow> json \<Rightarrow> cache_node option"
  and json2children :: "(string \<Rightarrow> time_t option) \<Rightarrow> json list \<Rightarrow> cache_node list option"
where
  "json2node tt json =
     (case json_string_value (json_object_get (Some json) ''basename'') of
        None \<Rightarrow> None
      | Some string \<Rightarrow>
          if \<not> json_is_integer (json_object_get (Some json) ''flags'') then None
          else
            (case json_tt_value tt (json_object_get (Some json) ''ts_success'') of
               None \<Rightarrow> None
             | Some tss \<Rightarrow>
                 (case json_tt_value tt (json_object_get (Some json) ''ts_attempt'') of
                    None \<Rightarrow> None
                  | Some tsa \<Rightarrow>
                      if \<not> json_is_integer (json_object_get (Some json) ''error'') then None
                      else
                        (case json_object_get (Some json) ''children'' of
                           None \<Rightarrow>
                             Some (Node string
                               (word_of_int (json_integer_value (json_object_get (Some json) ''flags'')))
                               tss tsa
                               (word_of_int (json_integer_value (json_object_get (Some json) ''error'')))
                               [])
                         | Some (JArray js) \<Rightarrow>
                             (case json2children tt js of
                                None \<Rightarrow> None
                              | Some cs \<Rightarrow>
                                  Some (Node string
                                    (word_of_int (json_integer_value (json_object_get (Some json) ''flags'')))
                                    tss tsa
                                    (word_of_int (json_integer_value (json_object_get (Some json) ''error'')))
                                    cs))
                         | Some _ \<Rightarrow> None))))"
| "json2children tt [] = Some []"
| "json2children tt (j # js) =
     (case json2node tt j of
        None \<Rightarrow> None
      | Some child \<Rightarrow>
          (case json2children tt js of None \<Rightarrow> None | Some cs \<Rightarrow> Some (child # cs)))"
  by pat_completeness auto
termination
proof -
  have get_size: "size_list size js < size json"
    if "json_object_get (Some json) ''children'' = Some (JArray js)" for json js
  proof -
    from that obtain kvs where j: "json = JObject kvs"
      and m: "map_of kvs ''children'' = Some (JArray js)"
      by (auto simp: json_object_get_def split: json.splits)
    have "map_of kvs k = Some v \<Longrightarrow> size v \<le> size_list (size_prod (\<lambda>x. 0) size) kvs" for k v
      by (induction kvs) (auto split: if_splits)
    from this[OF m] show ?thesis by (simp add: j)
  qed
  show ?thesis
    by (relation "measure (\<lambda>x. case x of Inl (tt, j) \<Rightarrow> size j | Inr (tt, js) \<Rightarrow> size_list size js)")
       (auto dest: get_size)
qed

declare json2node.simps [simp del]

text \<open>\<open>strcasecmp(a, b) == 0\<close>: equal up to the case of the ASCII letters.\<close>

definition tolower :: "char \<Rightarrow> char" where
  "tolower c =
     (if 65 \<le> (of_char c :: nat) \<and> (of_char c :: nat) \<le> 90
      then char_of ((of_char c :: nat) + 32) else c)"

definition strcasecmp_is_0 :: "string \<Rightarrow> string \<Rightarrow> bool" where
  "strcasecmp_is_0 a b \<longleftrightarrow> map tolower a = map tolower b"

text \<open>The loop of lines 267-280 over the elements of the root array.\<close>

fun load_elements ::
  "(string \<Rightarrow> time_t option) \<Rightarrow> json list \<Rightarrow> cache_node option \<times> cache_node option
     \<Rightarrow> cache_node option \<times> cache_node option" where
  "load_elements tt [] roots = roots"
| "load_elements tt (j # js) (r, h) =
     (case json2node tt j of
        None \<Rightarrow> load_elements tt js (r, h)
      | Some node \<Rightarrow>
          if strcasecmp_is_0 (basename node) ''rsync'' then load_elements tt js (Some node, h)
          else if strcasecmp_is_0 (basename node) ''https'' then load_elements tt js (r, Some node)
          else load_elements tt js (r, h))"

text \<open>
  \<open>load_metadata_json\<close>: \<open>file\<close> is what \<open>json_load_file\<close> returns for metadata.json
  (\<open>None\<close> when the path cannot be built or the file cannot be parsed).
\<close>

definition load_metadata_json ::
  "(string \<Rightarrow> time_t option) \<Rightarrow> json option \<Rightarrow> cache \<Rightarrow> cache" where
  "load_metadata_json tt file c =
     (case (case file of
              Some (JArray js) \<Rightarrow> load_elements tt js (rsync c, https c)
            | _ \<Rightarrow> (rsync c, https c)) of
        (r, h) \<Rightarrow> c\<lparr>rsync := init_root r ''rsync'', https := init_root h ''https''\<rparr>)"

text \<open>\<open>cache_prepare\<close>: \<open>now\<close> is what \<open>time(NULL)\<close> returns.\<close>

definition cache_prepare ::
  "(string \<Rightarrow> time_t option) \<Rightarrow> time_t \<Rightarrow> json option \<Rightarrow> cache \<Rightarrow> abort + cache" where
  "cache_prepare tt now file c =
     (if now = -1 then Inl Time_returned_minus_1
      else if rsync c = None then Inr (load_metadata_json tt file (c\<lparr>startup_time := now\<rparr>))
      else Inr (c\<lparr>startup_time := now\<rparr>))"

text \<open>The state of the process before the first \<open>cache_prepare\<close>: the static variables.\<close>

definition initial_cache :: cache where
  "initial_cache = \<lparr>rsync = None, https = None, startup_time = 0\<rparr>"

text \<open>
  The fields of one node object are well formed, and: some node object of an element,
  at any depth below it, has a malformed field.
\<close>

definition node_fields_ok :: "(string \<Rightarrow> time_t option) \<Rightarrow> json \<Rightarrow> bool" where
  "node_fields_ok tt j \<longleftrightarrow>
     json_string_value (json_object_get (Some j) ''basename'') \<noteq> None \<and>
     json_is_integer (json_object_get (Some j) ''flags'') \<and>
     json_tt_value tt (json_object_get (Some j) ''ts_success'') \<noteq> None \<and>
     json_tt_value tt (json_object_get (Some j) ''ts_attempt'') \<noteq> None \<and>
     json_is_integer (json_object_get (Some j) ''error'') \<and>
     (json_object_get (Some j) ''children'' = None \<or>
      json_is_array (json_object_get (Some j) ''children''))"

inductive malformed_within :: "(string \<Rightarrow> time_t option) \<Rightarrow> json \<Rightarrow> bool"
  for tt :: "string \<Rightarrow> time_t option" where
  here: "\<not> node_fields_ok tt j \<Longrightarrow> malformed_within tt j"
| below: "json_object_get (Some j) ''children'' = Some (JArray js) \<Longrightarrow> c \<in> set js \<Longrightarrow>
          malformed_within tt c \<Longrightarrow> malformed_within tt j"

section \<open>The overlay (SLURM) loader\<close>

text \<open>
  Error numbers and address families are those of Linux. The flag constants of
  slurm_parser.h and the address functions of address.h are not part of the sources at
  hand: the functions below take them as parameters.
\<close>

definition EINVAL :: int where "EINVAL = 22"
definition UINT32_MAX :: int where "UINT32_MAX = 4294967295"
definition AF_INET :: "8 word" where "AF_INET = 2"
definition AF_INET6 :: "8 word" where "AF_INET6 = 10"

record slurm_flag_consts =
  SLURM_COM_FLAG_NONE :: "8 word"
  SLURM_COM_FLAG_ASN :: "8 word"
  SLURM_COM_FLAG_COMMENT :: "8 word"
  SLURM_PFX_FLAG_PREFIX :: "8 word"
  SLURM_PFX_FLAG_MAX_LENGTH :: "8 word"
  SLURM_BGPS_FLAG_SKI :: "8 word"
  SLURM_BGPS_FLAG_ROUTER_KEY :: "8 word"

record address_fns =
  prefix4_decode :: "string \<Rightarrow> int \<times> 32 word"
  prefix6_decode :: "string \<Rightarrow> int \<times> 128 word"
  prefix_length_decode :: "string \<Rightarrow> int \<Rightarrow> int \<times> 32 word"
  prefix4_validate :: "32 word \<Rightarrow> 32 word \<Rightarrow> int"
  prefix6_validate :: "128 word \<Rightarrow> 32 word \<Rightarrow> int"

datatype prefix_addr = No_addr | Addr4 "32 word" | Addr6 "128 word"

record slurm_prefix =
  data_flag :: "8 word"
  asn :: "32 word"
  prefix_addr :: prefix_addr
  prefix_length :: "8 word"
  max_prefix_length :: "8 word"
  addr_fam :: "8 word"
  comment :: "string option"

text \<open>
  \<open>struct slurm_bgpsec\<close>: the decoded \<open>ski\<close> and \<open>routerPublicKey\<close> are freed as soon
  as they are decoded (lines 397 and 438), so the record keeps no bytes.
\<close>

record slurm_bgpsec =
  bgpsec_data_flag :: "8 word"
  bgpsec_asn :: "32 word"
  bgpsec_comment :: "string option"

text \<open>The result is the error code and the value written through the pointer.\<close>

definition json_get_string :: "json \<Rightarrow> string \<Rightarrow> int \<times> string option" where
  "json_get_string parent name =
     (case json_object_get (Some parent) name of
        None \<Rightarrow> (0, None)
      | Some child \<Rightarrow>
          if \<not> json_is_string (Some child) then (- EINVAL, None)
          else (0, json_string_value (Some child)))"

definition json_get_int :: "json \<Rightarrow> string \<Rightarrow> int \<times> int" where
  "json_get_int parent name =
     (case json_object_get (Some parent) name of
        None \<Rightarrow> (0, 0)
      | Some child \<Rightarrow>
          if \<not> json_is_integer (Some child) then (- EINVAL, 0)
          else (0, json_integer_value (Some child)))"

text \<open>\<open>set_asn\<close>: the error code, \<open>*result\<close> and \<open>*flag\<close> afterwards.\<close>

definition set_asn ::
  "slurm_flag_consts \<Rightarrow> json \<Rightarrow> bool \<Rightarrow> 32 word \<Rightarrow> 8 word \<Rightarrow> int \<times> 32 word \<times> 8 word" where
  "set_asn K object is_assertion result flag =
     (case json_get_int object ''asn'' of
        (err, int_tmp) \<Rightarrow>
          if err \<noteq> 0 then (err, result, flag)
          else if int_tmp = 0 then (if is_assertion then (- EINVAL, result, flag) else (0, result, flag))
          else if int_tmp \<le> 0 \<or> UINT32_MAX < int_tmp then (- EINVAL, result, flag)
          else (0, word_of_int int_tmp, flag OR SLURM_COM_FLAG_ASN K))"

definition set_comment ::
  "slurm_flag_consts \<Rightarrow> json \<Rightarrow> string option \<Rightarrow> 8 word \<Rightarrow> int \<times> string option \<times> 8 word" where
  "set_comment K object old_comment flag =
     (case json_get_string object ''comment'' of
        (err, c) \<Rightarrow>
          if err \<noteq> 0 then (err, c, flag)
          else if c \<noteq> None then (0, c, flag OR SLURM_COM_FLAG_COMMENT K)
          else (0, c, flag))"

definition parse_prefix_length :: "address_fns \<Rightarrow> string option \<Rightarrow> int \<Rightarrow> int \<times> 32 word" where
  "parse_prefix_length A text max_value =
     (case text of None \<Rightarrow> (- EINVAL, 0) | Some t \<Rightarrow> prefix_length_decode A t max_value)"

text \<open>
  \<open>set_prefix\<close>. \<open>strtok(clone, "/")\<close> is NULL for a string without a character other
  than \<open>/\<close>, and \<open>strchr\<close> of line 202 then reads through NULL: the result \<open>None\<close>.
\<close>

definition set_prefix ::
  "slurm_flag_consts \<Rightarrow> address_fns \<Rightarrow> json \<Rightarrow> bool \<Rightarrow> slurm_prefix
     \<Rightarrow> (int \<times> slurm_prefix) option" where
  "set_prefix K A object is_assertion result =
     (case json_get_string object ''prefix'' of
        (err, str_prefix) \<Rightarrow>
          if err \<noteq> 0 then Some (err, result)
          else
            (case str_prefix of
               None \<Rightarrow> Some (if is_assertion then - EINVAL else 0, result)
             | Some str \<Rightarrow>
                 (case strtok_all CHR ''/'' str of
                    [] \<Rightarrow> None
                  | token # rest \<Rightarrow>
                      if CHR '':'' \<notin> set token then
                        (case prefix4_decode A token of
                           (e1, addr) \<Rightarrow>
                             if e1 \<noteq> 0 then Some (e1, result)
                             else
                               (case parse_prefix_length A
                                       (case rest of [] \<Rightarrow> None | t # ts \<Rightarrow> Some t) 32 of
                                  (e2, len) \<Rightarrow>
                                    if e2 \<noteq> 0 then Some (e2, result)
                                    else if prefix4_validate A addr len \<noteq> 0
                                    then Some (prefix4_validate A addr len, result)
                                    else Some (0, result
                                      \<lparr>data_flag := data_flag result OR SLURM_PFX_FLAG_PREFIX K,
                                       prefix_addr := Addr4 addr,
                                       prefix_length := ucast len,
                                       addr_fam := AF_INET\<rparr>)))
                      else
                        (case prefix6_decode A token of
                           (e1, addr) \<Rightarrow>
                             if e1 \<noteq> 0 then Some (e1, result)
                             else
                               (case parse_prefix_length A
                                       (case rest of [] \<Rightarrow> None | t # ts \<Rightarrow> Some t) 128 of
                                  (e2, len) \<Rightarrow>
                                    if e2 \<noteq> 0 then Some (e2, result)
                                    else if prefix6_validate A addr len \<noteq> 0
                                    then Some (prefix6_validate A addr len, result)
                                    else Some (0, result
                                      \<lparr>data_flag := data_flag result OR SLURM_PFX_FLAG_PREFIX K,
                                       prefix_addr := Addr6 addr,
                                       prefix_length := ucast len,
                                       addr_fam := AF_INET6\<rparr>))))))"

definition set_max_prefix_length ::
  "slurm_flag_consts \<Rightarrow> json \<Rightarrow> bool \<Rightarrow> 8 word \<Rightarrow> 8 word \<Rightarrow> 8 word \<Rightarrow> int \<times> 8 word \<times> 8 word" where
  "set_max_prefix_length K object is_assertion fam result flag =
     (if \<not> is_assertion then (0, result, flag)
      else
        (case json_get_int object ''maxPrefixLength'' of
           (err, int_tmp) \<Rightarrow>
             if err \<noteq> 0 then (err, result, flag)
             else if int_tmp = 0 then (0, result, flag)
             else if int_tmp \<le> 0 \<or> (if fam = AF_INET then 32 else 128) < int_tmp
             then (- EINVAL, result, flag)
             else (0, word_of_int int_tmp, flag OR SLURM_PFX_FLAG_MAX_LENGTH K)))"

text \<open>
  \<open>decode_base64url\<close>. The buffer \<open>str_copy\<close> is built as the code builds it: filled
  with the pad character, overwritten with the input, then translated in place by
  the loop of lines 327-332. \<open>base64_decode\<close> (crypto/base64.c, over OpenSSL) is a
  parameter: from the text and the size of the output buffer to the error code and
  the decoded bytes. \<open>Inl\<close> carries the error code returned, \<open>Inr\<close> the bytes left in
  \<open>*result\<close> when 0 is returned. A C string holds no NUL character.
\<close>

text \<open>The macro of OpenSSL: \<open>(((l)+3)/4*3+80)\<close>.\<close>

definition EVP_DECODE_LENGTH :: "nat \<Rightarrow> nat" where
  "EVP_DECODE_LENGTH l = (l + 3) div 4 * 3 + 80"

function translate_loop :: "nat \<Rightarrow> nat \<Rightarrow> string \<Rightarrow> string" where
  "translate_loop i encoded_len str_copy =
     (if i < encoded_len then
        translate_loop (Suc i) encoded_len
          (if str_copy ! i = CHR ''-'' then str_copy[i := CHR ''+'']
           else if str_copy ! i = CHR ''_'' then str_copy[i := CHR ''/'']
           else str_copy)
      else str_copy)"
  by pat_completeness auto
termination
  by (relation "measure (\<lambda>(i, encoded_len, str_copy). encoded_len - i)") auto

declare translate_loop.simps [simp del]

definition memcpy :: "string \<Rightarrow> string \<Rightarrow> nat \<Rightarrow> string" where
  "memcpy dst src n = take n src @ drop n dst"

definition decode_base64url ::
  "(string \<Rightarrow> nat \<Rightarrow> int \<times> 8 word list) \<Rightarrow> string \<Rightarrow> int + 8 word list" where
  "decode_base64url base64_decode str_encoded =
     (if CHR ''='' \<in> set str_encoded then Inl (- EINVAL)
      else
        (let encoded_len = length str_encoded;
             pad = (if encoded_len mod 4 > 0 then 4 - encoded_len mod 4 else 0);
             str_copy = translate_loop 0 encoded_len
                          (memcpy (replicate (encoded_len + pad) CHR ''='') str_encoded encoded_len);
             alloc_size = EVP_DECODE_LENGTH (length str_copy)
         in case base64_decode str_copy alloc_size of
              (err, dec) \<Rightarrow>
                if err \<noteq> 0 then Inl err
                else if length dec = 0 then Inl (- EINVAL)
                else Inr dec))"

text \<open>
  The description to compare with: the alphabet of base64url translated to the one of
  base64, and the canonical padding appended.
\<close>

definition url_to_std :: "char \<Rightarrow> char" where
  "url_to_std c = (if c = CHR ''-'' then CHR ''+'' else if c = CHR ''_'' then CHR ''/'' else c)"

definition base64_padded :: "string \<Rightarrow> string" where
  "base64_padded s = map url_to_std s @ replicate ((4 - length s mod 4) mod 4) CHR ''=''"

definition set_ski ::
  "slurm_flag_consts \<Rightarrow> (string \<Rightarrow> nat \<Rightarrow> int \<times> 8 word list) \<Rightarrow> json \<Rightarrow> bool \<Rightarrow> slurm_bgpsec
     \<Rightarrow> int \<times> slurm_bgpsec" where
  "set_ski K base64_decode object is_assertion result =
     (case json_get_string object ''SKI'' of
        (err, str_encoded) \<Rightarrow>
          if err \<noteq> 0 then (err, result)
          else
            (case str_encoded of
               None \<Rightarrow> (if is_assertion then - EINVAL else 0, result)
             | Some str \<Rightarrow>
                 (case decode_base64url base64_decode str of
                    Inl e \<Rightarrow> (e, result)
                  | Inr ski \<Rightarrow>
                      (0, result\<lparr>bgpsec_data_flag :=
                                   bgpsec_data_flag result OR SLURM_BGPS_FLAG_SKI K\<rparr>))))"

definition set_router_pub_key ::
  "slurm_flag_consts \<Rightarrow> (string \<Rightarrow> nat \<Rightarrow> int \<times> 8 word list) \<Rightarrow> json \<Rightarrow> bool \<Rightarrow> slurm_bgpsec
     \<Rightarrow> int \<times> slurm_bgpsec" where
  "set_router_pub_key K base64_decode object is_assertion result =
     (if \<not> is_assertion then (0, result)
      else
        (case json_get_string object ''routerPublicKey'' of
           (err, str_encoded) \<Rightarrow>
             if err \<noteq> 0 then (err, result)
             else
               (case str_encoded of
                  None \<Rightarrow> (- EINVAL, result)
                | Some str \<Rightarrow>
                    (case decode_base64url base64_decode str of
                       Inl e \<Rightarrow> (e, result)
                     | Inr key \<Rightarrow>
                         (0, result\<lparr>bgpsec_data_flag :=
                                      bgpsec_data_flag result OR SLURM_BGPS_FLAG_ROUTER_KEY K\<rparr>)))))"

text \<open>
  \<open>load_single_prefix\<close> and \<open>load_single_bgpsec\<close>: the error code of one element, 0
  when the record is accepted. The record on the stack starts with \<open>data_flag\<close> set
  and the other fields not initialised; no path reads one of them before writing it,
  and the model starts them at zero.
\<close>

definition load_single_prefix ::
  "slurm_flag_consts \<Rightarrow> address_fns \<Rightarrow> json \<Rightarrow> bool \<Rightarrow> int option" where
  "load_single_prefix K A object is_assertion =
     (if \<not> json_is_object (Some object) then Some (- EINVAL)
      else
        (case set_asn K object is_assertion 0 (SLURM_COM_FLAG_NONE K) of
           (e1, a, f1) \<Rightarrow>
             if e1 \<noteq> 0 then Some e1
             else
               (case set_prefix K A object is_assertion
                       \<lparr>data_flag = f1, asn = a, prefix_addr = No_addr, prefix_length = 0,
                        max_prefix_length = 0, addr_fam = 0, comment = None\<rparr> of
                  None \<Rightarrow> None
                | Some (e2, r2) \<Rightarrow>
                    if e2 \<noteq> 0 then Some e2
                    else
                      (case set_comment K object (comment r2) (data_flag r2) of
                         (e3, c, f3) \<Rightarrow>
                           if e3 \<noteq> 0 then Some e3
                           else
                             (case set_max_prefix_length K object is_assertion (addr_fam r2)
                                     (max_prefix_length r2) f3 of
                                (e4, m, f4) \<Rightarrow>
                                  if e4 \<noteq> 0 then Some e4
                                  else if is_assertion \<and> f4 AND SLURM_PFX_FLAG_MAX_LENGTH K \<noteq> 0
                                          \<and> prefix_length r2 > m
                                  then Some (- EINVAL)
                                  else Some 0)))))"

definition load_single_bgpsec ::
  "slurm_flag_consts \<Rightarrow> (string \<Rightarrow> nat \<Rightarrow> int \<times> 8 word list) \<Rightarrow> json \<Rightarrow> bool \<Rightarrow> int" where
  "load_single_bgpsec K base64_decode object is_assertion =
     (if \<not> json_is_object (Some object) then - EINVAL
      else
        (case set_asn K object is_assertion 0 (SLURM_COM_FLAG_NONE K) of
           (e1, a, f1) \<Rightarrow>
             if e1 \<noteq> 0 then e1
             else
               (case set_ski K base64_decode object is_assertion
                       \<lparr>bgpsec_data_flag = f1, bgpsec_asn = a, bgpsec_comment = None\<rparr> of
                  (e2, r2) \<Rightarrow>
                    if e2 \<noteq> 0 then e2
                    else
                      (case set_router_pub_key K base64_decode object is_assertion r2 of
                         (e3, r3) \<Rightarrow>
                           if e3 \<noteq> 0 then e3
                           else fst (set_comment K object (bgpsec_comment r3)
                                       (bgpsec_data_flag r3))))))"

section \<open>Concrete inputs used to exercise the theorems\<close>

text \<open>Fetchers that return \<open>r\<close> for every URI, with the clock at \<open>now\<close>.\<close>

definition fetch_all :: "c_int \<Rightarrow> time_t \<Rightarrow> fetchers" where
  "fetch_all r now =
     \<lparr>rsync_download = (\<lambda>u. r), http_download = (\<lambda>u. (r, True)), time_now = now\<rparr>"

text \<open>The cache of a run started at \<open>st\<close> without metadata.\<close>

definition cold_cache :: "time_t \<Rightarrow> cache" where
  "cold_cache st =
     \<lparr>rsync = Some (new_node ''rsync''), https = Some (new_node ''https''), startup_time = st\<rparr>"

definition uri_b_cer :: rpki_uri where
  "uri_b_cer = \<lparr>uri_get_type = UT_HTTPS, uri_get_local = ''https/h/a/b.cer''\<rparr>"

definition uri_x_cer :: rpki_uri where
  "uri_x_cer = \<lparr>uri_get_type = UT_HTTPS, uri_get_local = ''https/x.cer''\<rparr>"

definition uri_r_p :: rpki_uri where
  "uri_r_p = \<lparr>uri_get_type = UT_RSYNC, uri_get_local = ''rsync/r/p/''\<rparr>"

definition uri_r_p_q :: rpki_uri where
  "uri_r_p_q = \<lparr>uri_get_type = UT_RSYNC, uri_get_local = ''rsync/r/p/q''\<rparr>"

definition uri_a_b :: rpki_uri where
  "uri_a_b = \<lparr>uri_get_type = UT_RSYNC, uri_get_local = ''rsync/a/b''\<rparr>"

text \<open>After the cold-start fetch of https://h/a/b.cer at time 150.\<close>

definition b_cer_cache :: cache where
  "b_cer_cache =
     \<lparr>rsync = Some (new_node ''rsync''),
      https = Some (Node ''https'' 0 0 0 0 [Node ''h'' 0 0 0 0 [Node ''a'' 0 0 0 0
                [Node ''b.cer'' (CNF_DIRECT OR CNF_SUCCESS OR CNF_FILE) 150 150 0 []]]]),
      startup_time = 100\<rparr>"

text \<open>x.cer was fetched as a file at time 50, before the run that started at 100.\<close>

definition old_file_cache :: cache where
  "old_file_cache =
     \<lparr>rsync = Some (new_node ''rsync''),
      https = Some (Node ''https'' 0 0 0 0
                [Node ''x.cer'' (CNF_DIRECT OR CNF_SUCCESS OR CNF_FILE) 50 50 0 []]),
      startup_time = 100\<rparr>"

text \<open>rsync://r/p/ was fetched with success at time 150 of the run started at 100.\<close>

definition covered_cache :: cache where
  "covered_cache =
     \<lparr>rsync = Some (Node ''rsync'' 0 0 0 0 [Node ''r'' 0 0 0 0
                [Node ''p'' (CNF_DIRECT OR CNF_SUCCESS) 150 150 0 []]]),
      https = Some (new_node ''https''),
      startup_time = 100\<rparr>"

text \<open>
  A fresh node \<open>a\<close> with a zero error above a fresh node \<open>b\<close> whose stored error is 5,
  in a run started at 100.
\<close>

definition shadowed_cache :: cache where
  "shadowed_cache =
     \<lparr>rsync = Some (Node ''rsync'' 0 0 0 0
                [Node ''a'' (CNF_DIRECT OR CNF_SUCCESS) 120 120 0
                   [Node ''b'' CNF_DIRECT 0 120 5 []]]),
      https = Some (new_node ''https''),
      startup_time = 100\<rparr>"

text \<open>A path builder that never reports a path as too long.\<close>

definition all_paths_ok :: "string list \<Rightarrow> bool" where
  "all_paths_ok p = True"

text \<open>After the failed fetch of rsync://a/b at time 150 of the run started at 100.\<close>

definition failed_cache :: cache where
  "failed_cache =
     \<lparr>rsync = Some (Node ''rsync'' 0 0 0 0 [Node ''a'' 0 0 0 0
                [Node ''b'' CNF_DIRECT 0 150 7 []]]),
      https = Some (new_node ''https''),
      startup_time = 100\<rparr>"

text \<open>
  A stand-in for the C library that knows two timestamps, and metadata documents
  built from node objects.
\<close>

definition example_strptime :: "string \<Rightarrow> time_t option" where
  "example_strptime s =
     (if s = ''1970-01-01T00:02:00+0000'' then Some 120
      else if s = ''1970-01-01T00:00:00+0000'' then Some 0
      else None)"

definition node_object :: "string \<Rightarrow> json \<Rightarrow> string \<Rightarrow> int \<Rightarrow> json list \<Rightarrow> json" where
  "node_object name fl ts err cs =
     JObject [(''basename'', JString name), (''flags'', fl),
              (''ts_success'', JString ts), (''ts_attempt'', JString ts),
              (''error'', JInteger err), (''children'', JArray cs)]"

text \<open>
  A root \<open>rsync\<close> with a well-formed child \<open>a\<close> and a child \<open>b\<close> whose flags are a
  string, and a well-formed root \<open>https\<close>.
\<close>

definition object_a :: json where
  "object_a = node_object ''a'' (JInteger 3) ''1970-01-01T00:02:00+0000'' 0 []"

definition object_b :: json where
  "object_b = node_object ''b'' (JString ''3'') ''1970-01-01T00:02:00+0000'' 0 []"

definition broken_rsync_element :: json where
  "broken_rsync_element =
     node_object ''rsync'' (JInteger 1) ''1970-01-01T00:02:00+0000'' 0 [object_a, object_b]"

definition https_element :: json where
  "https_element = node_object ''https'' (JInteger 0) ''1970-01-01T00:02:00+0000'' 0 []"

definition broken_metadata :: json where
  "broken_metadata = JArray [broken_rsync_element, https_element]"

text \<open>The document that \<open>shadowed_cache\<close> is loaded from.\<close>

definition shadowed_metadata :: json where
  "shadowed_metadata =
     JArray
       [node_object ''rsync'' (JInteger 0) ''1970-01-01T00:00:00+0000'' 0
          [node_object ''a'' (JInteger 3) ''1970-01-01T00:02:00+0000'' 0
             [JObject [(''basename'', JString ''b''), (''flags'', JInteger 1),
                (''ts_success'', JString ''1970-01-01T00:00:00+0000''),
                (''ts_attempt'', JString ''1970-01-01T00:02:00+0000''),
                (''error'', JInteger 5)]]]]"

text \<open>An instance of the flag constants (one bit each) and of the address functions.\<close>

definition example_flags :: slurm_flag_consts where
  "example_flags =
     \<lparr>SLURM_COM_FLAG_NONE = 0, SLURM_COM_FLAG_ASN = 1, SLURM_COM_FLAG_COMMENT = 2,
      SLURM_PFX_FLAG_PREFIX = 4, SLURM_PFX_FLAG_MAX_LENGTH = 8,
      SLURM_BGPS_FLAG_SKI = 4, SLURM_BGPS_FLAG_ROUTER_KEY = 8\<rparr>"

definition refusing_address_fns :: address_fns where
  "refusing_address_fns =
     \<lparr>prefix4_decode = (\<lambda>s. (- EINVAL, 0)), prefix6_decode = (\<lambda>s. (- EINVAL, 0)),
      prefix_length_decode = (\<lambda>s m. (- EINVAL, 0)),
      prefix4_validate = (\<lambda>a l. - EINVAL), prefix6_validate = (\<lambda>a l. - EINVAL)\<rparr>"

text \<open>A decoder of the base64 of RFC 4648, padding required, to stand for \<open>base64_decode\<close>.\<close>

fun index_of :: "char \<Rightarrow> string \<Rightarrow> nat option" where
  "index_of c [] = None"
| "index_of c (x # xs) =
     (if c = x then Some 0 else (case index_of c xs of None \<Rightarrow> None | Some i \<Rightarrow> Some (Suc i)))"

definition b64_value :: "char \<Rightarrow> nat option" where
  "b64_value c =
     index_of c ''ABCDEFGHIJKLMNOPQRSTUVWXYZabcdefghijklmnopqrstuvwxyz0123456789+/''"

fun b64_quads :: "string \<Rightarrow> 8 word list option" where
  "b64_quads [] = Some []"
| "b64_quads (a # b # c # d # rest) =
     (case (b64_value a, b64_value b) of
        (Some va, Some vb) \<Rightarrow>
          if c = CHR ''='' \<and> d = CHR ''='' \<and> rest = [] then
            Some [of_nat ((va * 64 + vb) div 16)]
          else
            (case b64_value c of
               None \<Rightarrow> None
             | Some vc \<Rightarrow>
                 if d = CHR ''='' \<and> rest = [] then
                   Some [of_nat (((va * 64 + vb) * 64 + vc) div 1024),
                         of_nat (((va * 64 + vb) * 64 + vc) div 4 mod 256)]
                 else
                   (case (b64_value d, b64_quads rest) of
                      (Some vd, Some bytes) \<Rightarrow>
                        Some (of_nat ((((va * 64 + vb) * 64 + vc) * 64 + vd) div 65536) #
                              of_nat ((((va * 64 + vb) * 64 + vc) * 64 + vd) div 256 mod 256) #
                              of_nat ((((va * 64 + vb) * 64 + vc) * 64 + vd) mod 256) # bytes)
                    | _ \<Rightarrow> None))
      | _ \<Rightarrow> None)"
| "b64_quads _ = None"

definition example_base64_decode :: "string \<Rightarrow> nat \<Rightarrow> int \<times> 8 word list" where
  "example_base64_decode s alloc_size =
     (case b64_quads s of None \<Rightarrow> (- EINVAL, []) | Some bytes \<Rightarrow> (0, bytes))"

section \<open>Properties of \<open>cache_download\<close>\<close>

lemma CNF_values: "CNF_DIRECT = 1" "CNF_SUCCESS = 2" "CNF_FOUND = 4" "CNF_FILE = 8"
  by (simp_all add: CNF_DIRECT_def CNF_SUCCESS_def CNF_FOUND_def CNF_FILE_def)

lemma find_child_replace:
  "find_child cs t = Some c \<Longrightarrow> basename c' = t \<Longrightarrow> find_child (replace_child cs t c') t = Some c'"
  by (induction cs) (auto simp: find_child_def split: if_splits)

lemma find_child_append_new:
  "find_child cs t = None \<Longrightarrow> basename c = t \<Longrightarrow> find_child (cs @ [c]) t = Some c"
  by (induction cs) (auto simp: find_child_def split: if_splits)

lemma find_child_basename: "find_child cs t = Some c \<Longrightarrow> basename c = t"
  by (induction cs) (auto simp: find_child_def split: if_splits)

lemma update_node_basename: "update_node rec now err n = Inr n' \<Longrightarrow> basename n' = basename n"
  by (auto simp: update_node_def split: if_splits)

lemma download_basename:
  "download fx uri rec evs n = Inr (n', r, ch, evs') \<Longrightarrow> basename n' = basename n"
  by (auto simp: download_def split: uri_type.splits sum.splits dest: update_node_basename)

lemma download_target:
  "download fx uri rec evs n = Inr (n', r, ch, evs') \<Longrightarrow>
     update_node rec (time_now fx) r n = Inr n' \<and> fetched evs'"
  by (auto simp: download_def fetched_def split: uri_type.splits sum.splits)

lemma add_chain_basename:
  "add_chain fx uri rec evs t ts = Inr (n', r, ch, evs') \<Longrightarrow> basename n' = t"
  by (induction ts arbitrary: t n' r ch evs')
     (auto simp: new_node_def set_children_def split: sum.splits dest: download_basename)

lemma add_chain_target:
  "add_chain fx uri rec evs t ts = Inr (n', r, ch, evs') \<Longrightarrow>
     fetched evs' \<and> (\<exists>n0 N. deepest n' ts = Some N \<and> update_node rec (time_now fx) r n0 = Inr N)"
proof (induction ts arbitrary: t n' r ch evs')
  case Nil
  then show ?case using download_target by fastforce
next
  case (Cons a ts)
  from Cons.prems obtain c where c: "add_chain fx uri rec evs a ts = Inr (c, r, ch, evs')"
    and n': "n' = set_children [c] (new_node t)"
    by (auto split: sum.splits)
  from add_chain_basename[OF c] have "basename c = a" .
  then have "find_child (children n') a = Some c"
    by (simp add: n' set_children_def find_child_def)
  with Cons.IH[OF c] show ?case by simp
qed

lemma descend_basename:
  "descend fx uri rec st pb n ts = Inr (n', r, ch, evs') \<Longrightarrow> basename n' = basename n"
  by (cases ts)
     (auto simp: Let_def set_children_def set_flags_def
           split: sum.splits option.splits if_splits dest: download_basename)

lemma descend_target:
  "descend fx uri rec st pb n ts = Inr (n', r, ch, evs') \<Longrightarrow> fetched evs' \<Longrightarrow>
     (\<exists>n0 N. deepest n' ts = Some N \<and> update_node rec (time_now fx) r n0 = Inr N)"
proof (induction ts arbitrary: pb n n' r ch evs')
  case Nil
  then show ?case
    by (auto simp: fetched_def split: if_splits dest!: download_target)
next
  case (Cons t ts)
  define n1 where "n1 = (if flags n AND CNF_FILE \<noteq> 0 then set_flags 0 n else n)"
  define evs where "evs = (if flags n AND CNF_FILE \<noteq> 0 then [Delete_node_file pb True] else [])"
  have nf: "\<not> fetched evs" by (simp add: evs_def fetched_def)
  show ?case
  proof (cases "find_child (children n1) t")
    case None
    with Cons.prems(1) obtain c where c: "add_chain fx uri rec evs t ts = Inr (c, r, ch, evs')"
      and n': "n' = set_children (children n1 @ [c]) n1"
      by (auto simp: Let_def n1_def evs_def split: sum.splits)
    have "find_child (children n') t = Some c"
      using None add_chain_basename[OF c] by (simp add: n' set_children_def find_child_append_new)
    with add_chain_target[OF c] show ?thesis by simp
  next
    case (Some child)
    show ?thesis
    proof (cases "rec \<and> was_recently_downloaded st child \<and> error child = 0")
      case True
      with Some Cons.prems(1) have "evs' = evs"
        by (auto simp: Let_def n1_def evs_def)
      with nf Cons.prems(2) show ?thesis by simp
    next
      case False
      with Some Cons.prems(1) obtain c e2 where
        c: "descend fx uri rec st (pb @ [t]) child ts = Inr (c, r, ch, e2)"
        and n': "n' = set_children (replace_child (children n1) t c) n1"
        and e: "evs' = evs @ e2"
        by (auto simp: Let_def n1_def evs_def split: sum.splits)
      have f2: "fetched e2" using Cons.prems(2) nf by (auto simp: e fetched_def)
      have "basename c = t" using descend_basename[OF c] find_child_basename[OF Some] by simp
      then have "find_child (children n') t = Some c"
        using Some by (simp add: n' set_children_def find_child_replace)
      with Cons.IH[OF c f2] show ?thesis by simp
    qed
  qed
qed

lemma children_file_cleared [simp]:
  "children (if flags n AND CNF_FILE \<noteq> 0 then set_flags 0 n else n) = children n"
  by (simp add: set_flags_def)

lemma descend_covered:
  "covered st n ts \<Longrightarrow>
     \<exists>n' evs. descend fx uri True st pb n ts = Inr (n', 0, False, evs) \<and> \<not> fetched evs"
proof (induction ts arbitrary: pb n)
  case Nil
  then show ?case by simp
next
  case (Cons t ts)
  then obtain c where c: "find_child (children n) t = Some c"
    by (auto split: option.splits)
  show ?case
  proof (cases "was_recently_downloaded st c \<and> error c = 0")
    case True
    with c show ?thesis by (auto simp: Let_def fetched_def)
  next
    case False
    with Cons.prems c have "covered st c ts" by simp
    from Cons.IH[OF this, of "pb @ [t]"] obtain n' evs where
      "descend fx uri True st (pb @ [t]) c ts = Inr (n', 0, False, evs)" "\<not> fetched evs"
      by blast
    with c False show ?thesis by (auto simp: Let_def fetched_def)
  qed
qed

lemma deepest_covered:
  "deepest n p = Some c \<Longrightarrow> p \<noteq> [] \<Longrightarrow> was_recently_downloaded st c \<Longrightarrow> error c = 0 \<Longrightarrow>
     covered st n (p @ q)"
proof (induction p arbitrary: n)
  case Nil
  then show ?case by simp
next
  case (Cons t p)
  then obtain d where d: "find_child (children n) t = Some d" and dp: "deepest d p = Some c"
    by (auto split: option.splits)
  show ?case
  proof (cases "p = []")
    case True
    with dp Cons.prems d show ?thesis by simp
  next
    case False
    from Cons.IH[OF dp False Cons.prems(3,4)] d show ?thesis by simp
  qed
qed

lemma descend_fresh:
  "deepest n ts = Some N \<Longrightarrow> was_recently_downloaded st N \<Longrightarrow>
     \<exists>n' evs. descend fx uri rec st pb n ts
                 = Inr (n', if rec \<and> covered st n ts then 0 else error N, False, evs)
              \<and> \<not> fetched evs"
proof (induction ts arbitrary: pb n)
  case Nil
  then show ?case by (simp add: fetched_def)
next
  case (Cons t ts)
  then obtain c where c: "find_child (children n) t = Some c" and dp: "deepest c ts = Some N"
    by (auto split: option.splits)
  show ?case
  proof (cases "rec \<and> was_recently_downloaded st c \<and> error c = 0")
    case True
    with c show ?thesis by (auto simp: Let_def fetched_def)
  next
    case False
    from Cons.IH[OF dp Cons.prems(2), of "pb @ [t]"] obtain n' evs where
      "descend fx uri rec st (pb @ [t]) c ts
         = Inr (n', if rec \<and> covered st c ts then 0 else error N, False, evs)" "\<not> fetched evs"
      by blast
    with c False show ?thesis by (auto simp: Let_def fetched_def)
  qed
qed

lemma download_result:
  "download fx uri rec evs n = Inr (n', r, ch, evs') \<Longrightarrow> r = fetch_result fx uri"
  by (auto simp: download_def fetch_result_def split: uri_type.splits sum.splits)

lemma add_chain_result:
  "add_chain fx uri rec evs t ts = Inr (n', r, ch, evs') \<Longrightarrow> r = fetch_result fx uri"
  by (induction ts arbitrary: t n' r ch evs') (auto split: sum.splits dest: download_result)

lemma descend_result:
  "descend fx uri rec st pb n ts = Inr (n', r, ch, evs') \<Longrightarrow> fetched evs' \<Longrightarrow>
     r = fetch_result fx uri"
proof (induction ts arbitrary: pb n n' r ch evs')
  case Nil
  then show ?case
    by (auto simp: fetched_def split: if_splits dest: download_result)
next
  case (Cons t ts)
  then show ?case
    by (auto simp: Let_def fetched_def split: option.splits sum.splits if_splits
             dest: add_chain_result)
qed

lemma cache_download_descend:
  assumes "cache_download fx c uri = Inr (c', r, ch, evs)"
  shows "\<exists>root root'. uri_root c uri = Some root \<and> uri_root c' uri = Some root' \<and>
           descend fx uri (uri_get_type uri = UT_RSYNC) (startup_time c) [basename root] root
             (uri_tokens uri) = Inr (root', r, ch, evs)"
  using assms
  by (auto simp: cache_download_def uri_root_def split: uri_type.splits option.splits sum.splits)

lemma cache_download_target:
  assumes "cache_download fx c uri = Inr (c', r, ch, evs)" and "fetched evs"
  shows "\<exists>n0 N. uri_node c' uri = Some N \<and> r = fetch_result fx uri \<and>
           update_node (uri_get_type uri = UT_RSYNC) (time_now fx) r n0 = Inr N"
proof -
  from cache_download_descend[OF assms(1)] obtain root root' where
    r': "uri_root c' uri = Some root'" and
    d: "descend fx uri (uri_get_type uri = UT_RSYNC) (startup_time c) [basename root] root
             (uri_tokens uri) = Inr (root', r, ch, evs)"
    by blast
  from descend_target[OF d assms(2)] descend_result[OF d assms(2)] r'
  show ?thesis by (auto simp: uri_node_def)
qed

text \<open>
  Claim C3. Whenever \<open>cache_download\<close> performs a fetch, the node the URI designates
  afterwards holds the fetch result as its error, has \<open>CNF_DIRECT\<close> set and has the
  time read after the fetch as \<open>ts_attempt\<close>; when the fetch result is 0 it also has
  \<open>CNF_SUCCESS\<close> set, \<open>CNF_FILE\<close> for an HTTP URI, and \<open>ts_success = ts_attempt\<close>.
\<close>

theorem fetch_postcondition:
  assumes "cache_download fx c uri = Inr (c', r, ch, evs)" and "fetched evs"
  shows "\<exists>N. uri_node c' uri = Some N \<and>
           r = fetch_result fx uri \<and> error N = r \<and>
           flags N AND CNF_DIRECT \<noteq> 0 \<and>
           ts_attempt N = time_now fx \<and>
           (r = 0 \<longrightarrow> flags N AND CNF_SUCCESS \<noteq> 0 \<and>
                      (uri_get_type uri = UT_HTTPS \<longrightarrow> flags N AND CNF_FILE \<noteq> 0) \<and>
                      ts_success N = ts_attempt N)"
proof -
  from cache_download_target[OF assms] obtain n0 N where
    N: "uri_node c' uri = Some N" and r: "r = fetch_result fx uri" and
    u: "update_node (uri_get_type uri = UT_RSYNC) (time_now fx) r n0 = Inr N"
    by blast
  from u have "error N = r" "ts_attempt N = time_now fx" "flags N AND CNF_DIRECT \<noteq> 0"
    "r = 0 \<Longrightarrow> flags N AND CNF_SUCCESS \<noteq> 0"
    "r = 0 \<Longrightarrow> uri_get_type uri \<noteq> UT_RSYNC \<Longrightarrow> flags N AND CNF_FILE \<noteq> 0"
    "r = 0 \<Longrightarrow> ts_success N = ts_attempt N"
    by (auto simp: update_node_def CNF_values split: if_splits)
  with N r show ?thesis by auto
qed

lemma cache_download_startup:
  "cache_download fx c uri = Inr (c', r, ch, evs) \<Longrightarrow> startup_time c' = startup_time c"
  by (auto simp: cache_download_def split: uri_type.splits option.splits sum.splits)

lemma covered_returns_0:
  assumes "uri_get_type uri = UT_RSYNC" and "rsync c = Some root"
    and "uri_tokens uri = p @ q" and "p \<noteq> []" and "deepest root p = Some child"
    and "was_recently_downloaded (startup_time c) child" and "error child = 0"
  shows "\<exists>c' evs. cache_download fx c uri = Inr (c', 0, False, evs) \<and> \<not> fetched evs"
proof -
  from deepest_covered[OF assms(5,4,6,7)] assms(3)
  have "covered (startup_time c) root (uri_tokens uri)" by simp
  from descend_covered[OF this, of fx uri "[basename root]"] assms(1,2)
  show ?thesis by (auto simp: cache_download_def)
qed

text \<open>
  Claim C2. For a file-sync URI, when the walk of its tokens reaches an existing child
  that is fresh and whose stored error is zero, \<open>cache_download\<close> returns 0 and no
  fetcher is called.
\<close>

theorem ancestor_coverage:
  assumes "uri_get_type uri = UT_RSYNC" and "rsync c = Some root"
    and "uri_tokens uri = p @ q" and "p \<noteq> []" and "deepest root p = Some child"
    and "was_recently_downloaded (startup_time c) child" and "error child = 0"
  shows "\<exists>c' evs. cache_download fx c uri = Inr (c', 0, False, evs) \<and> \<not> fetched evs"
  using assms by (rule covered_returns_0)

text \<open>The cache of the next witness is what the fetch of rsync://r/p/ leaves.\<close>

lemma covered_cache_reached:
  "cache_download (fetch_all 0 150) (cold_cache 100) uri_r_p
     = Inr (covered_cache, 0, False, [Rsync_download uri_r_p])"
  by code_simp

text \<open>
  For Claim C2: the hypotheses hold in the cache where rsync://r/p/ was fetched with
  success in this run, for the URI rsync://r/p/q.
\<close>

theorem ancestor_coverage_witness:
  "uri_get_type uri_r_p_q = UT_RSYNC \<and>
   rsync covered_cache = Some (Node ''rsync'' 0 0 0 0 [Node ''r'' 0 0 0 0
                [Node ''p'' (CNF_DIRECT OR CNF_SUCCESS) 150 150 0 []]]) \<and>
   uri_tokens uri_r_p_q = [''r'', ''p''] @ [''q''] \<and>
   deepest (Node ''rsync'' 0 0 0 0 [Node ''r'' 0 0 0 0
                [Node ''p'' (CNF_DIRECT OR CNF_SUCCESS) 150 150 0 []]]) [''r'', ''p'']
     = Some (Node ''p'' (CNF_DIRECT OR CNF_SUCCESS) 150 150 0 []) \<and>
   was_recently_downloaded (startup_time covered_cache)
     (Node ''p'' (CNF_DIRECT OR CNF_SUCCESS) 150 150 0 []) \<and>
   (\<exists>c' evs. cache_download (fetch_all 7 160) covered_cache uri_r_p_q = Inr (c', 0, False, evs)
      \<and> \<not> fetched evs)"
proof -
  have h1: "uri_get_type uri_r_p_q = UT_RSYNC" by code_simp
  have h2: "rsync covered_cache = Some (Node ''rsync'' 0 0 0 0 [Node ''r'' 0 0 0 0
                [Node ''p'' (CNF_DIRECT OR CNF_SUCCESS) 150 150 0 []]])" by code_simp
  have h3: "uri_tokens uri_r_p_q = [''r'', ''p''] @ [''q'']" by code_simp
  have h4: "[''r'', ''p''] \<noteq> []" by simp
  have h5: "deepest (Node ''rsync'' 0 0 0 0 [Node ''r'' 0 0 0 0
                [Node ''p'' (CNF_DIRECT OR CNF_SUCCESS) 150 150 0 []]]) [''r'', ''p'']
     = Some (Node ''p'' (CNF_DIRECT OR CNF_SUCCESS) 150 150 0 [])" by code_simp
  have h6: "was_recently_downloaded (startup_time covered_cache)
     (Node ''p'' (CNF_DIRECT OR CNF_SUCCESS) 150 150 0 [])" by code_simp
  have h7: "error (Node ''p'' (CNF_DIRECT OR CNF_SUCCESS) 150 150 0 []) = 0" by simp
  from ancestor_coverage[OF h1 h2 h3 h4 h5 h6 h7, of "fetch_all 7 160"] h1 h2 h3 h5 h6
  show ?thesis by blast
qed

text \<open>
  Hence a fetch of a path below the root that succeeded in this run covers every URI
  that extends the path.
\<close>

lemma ancestor_fetch_covers_descendants:
  assumes t1: "uri_get_type uri1 = UT_RSYNC" and t2: "uri_get_type uri2 = UT_RSYNC"
    and p: "uri_tokens uri1 \<noteq> []" and pq: "uri_tokens uri2 = uri_tokens uri1 @ q"
    and first: "cache_download fx1 c uri1 = Inr (c1, 0, ch, evs)" and f: "fetched evs"
    and clock: "startup_time c \<le> time_now fx1"
  shows "\<exists>c2 evs2. cache_download fx2 c1 uri2 = Inr (c2, 0, False, evs2) \<and> \<not> fetched evs2"
proof -
  from cache_download_target[OF first f] obtain n0 N where
    N: "uri_node c1 uri1 = Some N" and
    u: "update_node (uri_get_type uri1 = UT_RSYNC) (time_now fx1) 0 n0 = Inr N"
    by blast
  from N t1 obtain root where r: "rsync c1 = Some root"
    and d: "deepest root (uri_tokens uri1) = Some N"
    by (auto simp: uri_node_def uri_root_def split: option.splits)
  from u t1 have "error N = 0" "flags N AND CNF_DIRECT \<noteq> 0" "ts_attempt N = time_now fx1"
    by (auto simp: update_node_def CNF_values split: if_splits)
  with clock cache_download_startup[OF first]
  have fr: "was_recently_downloaded (startup_time c1) N"
    by (simp add: was_recently_downloaded_def)
  from covered_returns_0[OF t2 r pq p d fr \<open>error N = 0\<close>] show ?thesis .
qed

text \<open>
  Claim C10. Every fetch overwrites the flags of its target: they are \<open>CNF_DIRECT\<close>
  alone after a failed fetch, whatever they were, so \<open>CNF_SUCCESS\<close> and \<open>CNF_FILE\<close>
  reflect the last direct attempt only.
\<close>

theorem flags_overwritten:
  assumes "cache_download fx c uri = Inr (c', r, ch, evs)" and "fetched evs"
  shows "\<exists>N. uri_node c' uri = Some N \<and>
           flags N = (if r = 0
                      then CNF_DIRECT OR CNF_SUCCESS OR
                           (if uri_get_type uri = UT_HTTPS then CNF_FILE else 0)
                      else CNF_DIRECT) \<and>
           (r \<noteq> 0 \<longrightarrow> flags N AND CNF_SUCCESS = 0 \<and> flags N AND CNF_FILE = 0)"
proof -
  from cache_download_target[OF assms] obtain n0 N where
    N: "uri_node c' uri = Some N" and
    u: "update_node (uri_get_type uri = UT_RSYNC) (time_now fx) r n0 = Inr N"
    by blast
  from assms(1) have ty: "uri_get_type uri = UT_RSYNC \<or> uri_get_type uri = UT_HTTPS"
    by (auto simp: cache_download_def split: uri_type.splits)
  from u ty have "flags N = (if r = 0
                      then CNF_DIRECT OR CNF_SUCCESS OR
                           (if uri_get_type uri = UT_HTTPS then CNF_FILE else 0)
                      else CNF_DIRECT)"
    by (auto simp: update_node_def CNF_values split: if_splits)
  moreover from this have "r \<noteq> 0 \<Longrightarrow> flags N AND CNF_SUCCESS = 0 \<and> flags N AND CNF_FILE = 0"
    by (simp add: CNF_values)
  ultimately show ?thesis using N by blast
qed

text \<open>
  For Claim C10: a node that carried \<open>CNF_DIRECT\<close>, \<open>CNF_SUCCESS\<close> and \<open>CNF_FILE\<close> from an
  earlier run is fetched again and the fetch fails with 7.
\<close>

theorem flags_overwritten_witness:
  "cache_download (fetch_all 7 150) old_file_cache uri_x_cer
     = Inr (\<lparr>rsync = Some (new_node ''rsync''),
             https = Some (Node ''https'' 0 0 0 0 [Node ''x.cer'' CNF_DIRECT 50 150 7 []]),
             startup_time = 100\<rparr>, 7, True, [Http_download uri_x_cer])
   \<and> fetched [Http_download uri_x_cer]
   \<and> uri_node old_file_cache uri_x_cer
       = Some (Node ''x.cer'' (CNF_DIRECT OR CNF_SUCCESS OR CNF_FILE) 50 50 0 [])
   \<and> (\<exists>N. uri_node \<lparr>rsync = Some (new_node ''rsync''),
             https = Some (Node ''https'' 0 0 0 0 [Node ''x.cer'' CNF_DIRECT 50 150 7 []]),
             startup_time = 100\<rparr> uri_x_cer = Some N \<and>
           flags N = (if (7::c_int) = 0
                      then CNF_DIRECT OR CNF_SUCCESS OR
                           (if uri_get_type uri_x_cer = UT_HTTPS then CNF_FILE else 0)
                      else CNF_DIRECT) \<and>
           ((7::c_int) \<noteq> 0 \<longrightarrow> flags N AND CNF_SUCCESS = 0 \<and> flags N AND CNF_FILE = 0))"
proof -
  have h1: "cache_download (fetch_all 7 150) old_file_cache uri_x_cer
     = Inr (\<lparr>rsync = Some (new_node ''rsync''),
             https = Some (Node ''https'' 0 0 0 0 [Node ''x.cer'' CNF_DIRECT 50 150 7 []]),
             startup_time = 100\<rparr>, 7, True, [Http_download uri_x_cer])"
    by code_simp
  have h2: "fetched [Http_download uri_x_cer]"
    by code_simp
  have h3: "uri_node old_file_cache uri_x_cer
       = Some (Node ''x.cer'' (CNF_DIRECT OR CNF_SUCCESS OR CNF_FILE) 50 50 0 [])"
    by code_simp
  from flags_overwritten[OF h1 h2] h1 h2 h3 show ?thesis by blast
qed

text \<open>The cold-start fetch of https://h/a/b.cer, for Claim C3.\<close>

theorem fetch_postcondition_witness:
  "cache_download (fetch_all 0 150) (cold_cache 100) uri_b_cer
     = Inr (b_cer_cache, 0, True, [Http_download uri_b_cer])
   \<and> fetched [Http_download uri_b_cer]
   \<and> uri_node b_cer_cache uri_b_cer
       = Some (Node ''b.cer'' (CNF_DIRECT OR CNF_SUCCESS OR CNF_FILE) 150 150 0 [])
   \<and> (\<exists>N. uri_node b_cer_cache uri_b_cer = Some N \<and>
           0 = fetch_result (fetch_all 0 150) uri_b_cer \<and> error N = 0 \<and>
           flags N AND CNF_DIRECT \<noteq> 0 \<and>
           ts_attempt N = time_now (fetch_all 0 150) \<and>
           ((0::c_int) = 0 \<longrightarrow> flags N AND CNF_SUCCESS \<noteq> 0 \<and>
                      (uri_get_type uri_b_cer = UT_HTTPS \<longrightarrow> flags N AND CNF_FILE \<noteq> 0) \<and>
                      ts_success N = ts_attempt N))"
proof -
  have h1: "cache_download (fetch_all 0 150) (cold_cache 100) uri_b_cer
     = Inr (b_cer_cache, 0, True, [Http_download uri_b_cer])"
    by code_simp
  have h2: "fetched [Http_download uri_b_cer]"
    by code_simp
  have h3: "uri_node b_cer_cache uri_b_cer
       = Some (Node ''b.cer'' (CNF_DIRECT OR CNF_SUCCESS OR CNF_FILE) 150 150 0 [])"
    by code_simp
  from fetch_postcondition[OF h1 h2] h1 h2 h3 show ?thesis by blast
qed

text \<open>A walk that goes on below a node leaves the fields of the node, or clears its flags.\<close>

lemma add_chain_fields:
  "add_chain fx uri rec evs t (x # ts) = Inr (n', r, ch, evs') \<Longrightarrow> flags n' = 0"
  by (auto simp: set_children_def new_node_def split: sum.splits)

lemma descend_fields:
  "descend fx uri rec st pb n (t # ts) = Inr (n', r, ch, evs') \<Longrightarrow>
     (flags n' = flags n \<or> flags n' = 0) \<and> error n' = error n \<and> ts_attempt n' = ts_attempt n"
  by (auto simp: Let_def set_children_def set_flags_def split: option.splits sum.splits if_splits)

lemma zero_flags_not_fresh: "flags n = 0 \<Longrightarrow> \<not> was_recently_downloaded st n"
  by (simp add: was_recently_downloaded_def)

lemma update_node_error: "update_node rec now r n0 = Inr N \<Longrightarrow> error N = r"
  by (auto simp: update_node_def split: if_splits)

lemma add_chain_covered:
  "add_chain fx uri rec evs t ts = Inr (c, r, ch, evs') \<Longrightarrow>
     (was_recently_downloaded st c \<and> error c = 0) \<or> covered st c ts \<Longrightarrow> r = 0"
proof (induction ts arbitrary: t c)
  case Nil
  then show ?case
    by (auto dest!: download_target update_node_error)
next
  case (Cons x ts)
  from Cons.prems(1) obtain d where d: "add_chain fx uri rec evs x ts = Inr (d, r, ch, evs')"
    and c: "c = set_children [d] (new_node t)"
    by (auto split: sum.splits)
  have "flags c = 0" by (simp add: c set_children_def new_node_def)
  then have nf: "\<not> was_recently_downloaded st c" by (rule zero_flags_not_fresh)
  have "find_child (children c) x = Some d"
    using add_chain_basename[OF d] by (simp add: c set_children_def find_child_def)
  with Cons.prems(2) nf have "(was_recently_downloaded st d \<and> error d = 0) \<or> covered st d ts"
    by simp
  from Cons.IH[OF d this] show ?case .
qed

lemma descend_covered_result:
  "descend fx uri True st pb n ts = Inr (n', r, ch, evs') \<Longrightarrow> fetched evs' \<Longrightarrow>
     covered st n' ts \<Longrightarrow> r = 0"
proof (induction ts arbitrary: pb n n' evs')
  case Nil
  then show ?case by simp
next
  case (Cons t ts)
  define n1 where "n1 = (if flags n AND CNF_FILE \<noteq> 0 then set_flags 0 n else n)"
  define evs where "evs = (if flags n AND CNF_FILE \<noteq> 0 then [Delete_node_file pb True] else [])"
  have nf: "\<not> fetched evs" by (simp add: evs_def fetched_def)
  show ?case
  proof (cases "find_child (children n1) t")
    case None
    with Cons.prems(1) obtain c where c: "add_chain fx uri True evs t ts = Inr (c, r, ch, evs')"
      and n': "n' = set_children (children n1 @ [c]) n1"
      by (auto simp: Let_def n1_def evs_def split: sum.splits)
    have "find_child (children n') t = Some c"
      using None add_chain_basename[OF c] by (simp add: n' set_children_def find_child_append_new)
    with Cons.prems(3) have "(was_recently_downloaded st c \<and> error c = 0) \<or> covered st c ts"
      by simp
    from add_chain_covered[OF c this] show ?thesis .
  next
    case (Some child)
    show ?thesis
    proof (cases "was_recently_downloaded st child \<and> error child = 0")
      case True
      with Some Cons.prems(1) have "evs' = evs"
        by (auto simp: Let_def n1_def evs_def)
      with nf Cons.prems(2) show ?thesis by simp
    next
      case False
      with Some Cons.prems(1) obtain c e2 where
        c: "descend fx uri True st (pb @ [t]) child ts = Inr (c, r, ch, e2)"
        and n': "n' = set_children (replace_child (children n1) t c) n1"
        and e: "evs' = evs @ e2"
        by (auto simp: Let_def n1_def evs_def split: sum.splits)
      have f2: "fetched e2" using Cons.prems(2) nf by (auto simp: e fetched_def)
      have "basename c = t" using descend_basename[OF c] find_child_basename[OF Some] by simp
      then have "find_child (children n') t = Some c"
        using Some by (simp add: n' set_children_def find_child_replace)
      with Cons.prems(3) have cov: "(was_recently_downloaded st c \<and> error c = 0) \<or> covered st c ts"
        by simp
      show ?thesis
      proof (cases ts)
        case Nil
        with c f2 have "\<exists>n0. update_node True (time_now fx) r n0 = Inr c"
          using descend_target[OF c f2] by simp
        with cov Nil show ?thesis by (auto dest: update_node_error)
      next
        case more: (Cons x xs)
        show ?thesis
        proof (cases "covered st c ts")
          case True
          from Cons.IH[OF c f2 True] show ?thesis .
        next
          case F: False
          with cov have fr: "was_recently_downloaded st c" "error c = 0" by auto
          from descend_fields[OF c[unfolded more]]
          have "(flags c = flags child \<or> flags c = 0) \<and> error c = error child
                  \<and> ts_attempt c = ts_attempt child" .
          with fr have "was_recently_downloaded st child \<and> error child = 0"
            by (auto simp: was_recently_downloaded_def)
          with False show ?thesis by simp
        qed
      qed
    qed
  qed
qed

text \<open>
  In any state, a URI whose node is fresh is answered without a fetch: with 0 when the
  test of line 404 succeeds on its path, with the stored error of the node otherwise.
\<close>

lemma fresh_returns_stored:
  assumes "uri_node c uri = Some N" and "was_recently_downloaded (startup_time c) N"
  shows "\<exists>c' evs. cache_download fx c uri
                     = Inr (c', if uri_covered c uri then 0 else error N, False, evs) \<and>
                   \<not> fetched evs"
proof -
  from assms(1) obtain root where r: "uri_root c uri = Some root"
    and d: "deepest root (uri_tokens uri) = Some N"
    by (auto simp: uri_node_def split: option.splits)
  from r have ty: "uri_get_type uri = UT_RSYNC \<and> rsync c = Some root \<or>
                   uri_get_type uri = UT_HTTPS \<and> https c = Some root"
    by (auto simp: uri_root_def split: uri_type.splits)
  from descend_fresh[OF d assms(2), of fx uri "uri_get_type uri = UT_RSYNC" "[basename root]"]
  obtain n' evs where
    "descend fx uri (uri_get_type uri = UT_RSYNC) (startup_time c) [basename root] root
         (uri_tokens uri)
       = Inr (n', if uri_get_type uri = UT_RSYNC \<and> covered (startup_time c) root (uri_tokens uri)
                  then 0 else error N, False, evs)"
    and nf: "\<not> fetched evs"
    by blast
  with ty show ?thesis
    by (auto simp: cache_download_def uri_covered_def)
qed

text \<open>
  Claim C1. A \<open>cache_download\<close> that fetched in the current run (the clock read after
  the fetch is not before \<open>startup_time\<close>) leaves the node the URI designates fresh,
  with the code it returned as the stored error; the next \<open>cache_download\<close> of the same
  URI returns that stored error, the code of the first call, and calls no fetcher.
\<close>

theorem freshness_law:
  assumes first: "cache_download fx1 c uri = Inr (c1, r, ch, evs)" and f: "fetched evs"
    and clock: "startup_time c \<le> time_now fx1"
  shows "\<exists>N. uri_node c1 uri = Some N \<and>
           was_recently_downloaded (startup_time c1) N \<and> error N = r \<and>
           (\<exists>c2 evs2. cache_download fx2 c1 uri = Inr (c2, error N, False, evs2) \<and>
                      \<not> fetched evs2)"
proof -
  from cache_download_target[OF first f] obtain n0 N where
    N: "uri_node c1 uri = Some N" and
    u: "update_node (uri_get_type uri = UT_RSYNC) (time_now fx1) r n0 = Inr N"
    by blast
  from u have e: "error N = r" and "flags N AND CNF_DIRECT \<noteq> 0" "ts_attempt N = time_now fx1"
    by (auto simp: update_node_def CNF_values split: if_splits)
  with clock cache_download_startup[OF first]
  have fr: "was_recently_downloaded (startup_time c1) N"
    by (simp add: was_recently_downloaded_def)
  have "uri_covered c1 uri \<Longrightarrow> r = 0"
  proof -
    assume cov: "uri_covered c1 uri"
    from cache_download_descend[OF first] obtain root root' where
      r': "uri_root c1 uri = Some root'" and
      d: "descend fx1 uri (uri_get_type uri = UT_RSYNC) (startup_time c) [basename root] root
             (uri_tokens uri) = Inr (root', r, ch, evs)"
      by blast
    from cov have ty: "uri_get_type uri = UT_RSYNC" by (simp add: uri_covered_def)
    with cov r' have "covered (startup_time c1) root' (uri_tokens uri)"
      by (auto simp: uri_covered_def uri_root_def split: option.splits)
    with cache_download_startup[OF first] d ty f show "r = 0"
      using descend_covered_result[of fx1 uri "startup_time c" "[basename root]" root
          "uri_tokens uri" root' r ch evs]
      by simp
  qed
  with fresh_returns_stored[OF N fr, of fx2] e
  have "\<exists>c2 evs2. cache_download fx2 c1 uri = Inr (c2, error N, False, evs2) \<and> \<not> fetched evs2"
    by auto
  with N fr e show ?thesis by blast
qed

text \<open>
  For Claim C1: the fetch of rsync://a/b fails with 7 at time 150 of the run started
  at 100; the next call, whose fetchers would succeed, returns 7 and calls none. The
  same for the fetch of https://h/a/b.cer that succeeds.
\<close>

theorem freshness_law_witness:
  "cache_download (fetch_all 7 150) (cold_cache 100) uri_a_b
     = Inr (failed_cache, 7, False, [Rsync_download uri_a_b]) \<and>
   fetched [Rsync_download uri_a_b] \<and>
   startup_time (cold_cache 100) \<le> time_now (fetch_all 7 150) \<and>
   uri_node failed_cache uri_a_b = Some (Node ''b'' CNF_DIRECT 0 150 7 []) \<and>
   (\<exists>N. uri_node failed_cache uri_a_b = Some N \<and>
        was_recently_downloaded (startup_time failed_cache) N \<and> error N = 7 \<and>
        (\<exists>c2 evs2. cache_download (fetch_all 0 160) failed_cache uri_a_b
                      = Inr (c2, error N, False, evs2) \<and> \<not> fetched evs2)) \<and>
   cache_download (fetch_all 0 150) (cold_cache 100) uri_b_cer
     = Inr (b_cer_cache, 0, True, [Http_download uri_b_cer]) \<and>
   (\<exists>N. uri_node b_cer_cache uri_b_cer = Some N \<and>
        was_recently_downloaded (startup_time b_cer_cache) N \<and> error N = 0 \<and>
        (\<exists>c2 evs2. cache_download (fetch_all 7 160) b_cer_cache uri_b_cer
                      = Inr (c2, error N, False, evs2) \<and> \<not> fetched evs2))"
proof -
  have h1: "cache_download (fetch_all 7 150) (cold_cache 100) uri_a_b
     = Inr (failed_cache, 7, False, [Rsync_download uri_a_b])"
    by code_simp
  have h2: "fetched [Rsync_download uri_a_b]"
    by code_simp
  have h3: "startup_time (cold_cache 100) \<le> time_now (fetch_all 7 150)"
    by code_simp
  have h4: "uri_node failed_cache uri_a_b = Some (Node ''b'' CNF_DIRECT 0 150 7 [])"
    by code_simp
  have g1: "cache_download (fetch_all 0 150) (cold_cache 100) uri_b_cer
     = Inr (b_cer_cache, 0, True, [Http_download uri_b_cer])"
    by code_simp
  have g2: "fetched [Http_download uri_b_cer]"
    by code_simp
  have g3: "startup_time (cold_cache 100) \<le> time_now (fetch_all 0 150)"
    by code_simp
  from freshness_law[OF h1 h2 h3, of "fetch_all 0 160"]
    freshness_law[OF g1 g2 g3, of "fetch_all 7 160"] h1 h2 h3 h4 g1
  show ?thesis by blast
qed

section \<open>Properties of the sweep\<close>

lemma scan_dir_no_children: "fst (scan_dir po st path [] es) = []"
  by (induction es) (auto simp: find_child_def split: prod.splits)

lemma cleanup_keeps_fields:
  "cleanup_recursive po st pb is_root n f = (Some n', f') \<Longrightarrow>
     basename n' = basename n \<and> flags n' = flags n \<and> error n' = error n \<and>
     ts_attempt n' = ts_attempt n \<and> ts_success n' = ts_success n"
  by (cases f) (auto simp: delete_node_def set_children_def split: if_splits prod.splits)

lemma stale_leaf_deleted:
  assumes "\<not> is_root" and "error n \<noteq> 0" and "children n = []"
    and "po (pb @ [basename n])" and "f \<noteq> Stat_error" and "\<not> opendir_fails f"
  shows "fst (cleanup_recursive po st pb is_root n f) = None"
proof (cases f)
  case (Dir ok es)
  with assms have ok by (simp add: opendir_fails_def)
  have "fst (scan_dir po st (pb @ [basename n]) [] es) = []" by (rule scan_dir_no_children)
  then obtain es' where "scan_dir po st (pb @ [basename n]) [] es = ([], es')"
    by (cases "scan_dir po st (pb @ [basename n]) [] es") auto
  with Dir assms \<open>ok\<close> show ?thesis
    by (simp add: sweep_found_def delete_node_def)
qed (use assms in \<open>auto simp: delete_node_def\<close>)

text \<open>
  The mark \<open>CNF_FOUND\<close> that the scan of the parent sets before the visit and clears
  after it leaves the flags as they were.
\<close>

lemma and_not_mask:
  fixes x m :: c_int
  assumes "x AND m = 0"
  shows "(x OR m) AND NOT m = x"
proof -
  have "(x OR m) AND NOT m = x AND NOT m"
    by (simp add: bit.conj_disj_distrib2)
  also have "\<dots> = (x AND NOT m) OR (x AND m)"
    using assms by simp
  also have "\<dots> = x AND (NOT m OR m)"
    by (simp only: bit.conj_disj_distrib)
  also have "\<dots> = x"
    by simp
  finally show ?thesis .
qed

lemma found_mark_cleared:
  "flags c AND CNF_FOUND = 0 \<Longrightarrow>
     set_flags ((flags c OR CNF_FOUND) AND NOT CNF_FOUND) c = c"
  by (cases c) (simp add: set_flags_def and_not_mask)

text \<open>
  Claim C6, amended. A node that is fresh with a zero error when the sweep visits it,
  and for whose path \<open>stat\<close> does not report that nothing is there, is retained, and
  neither the node, nor its subtree, nor the disk below its path is changed.
\<close>

theorem active_node_untouched:
  assumes "was_recently_downloaded startup node" and "error node = 0" and "f \<noteq> NoEnt"
  shows "cleanup_recursive path_ok startup pb is_root node f = (Some node, Some f)"
  using assms by (cases f) auto

text \<open>
  Claim C5 as stated fails: the fetch of rsync://a/b fails with 7 at time 150, the disk
  holds the directory \<open>a\<close> and nothing below it, and after \<open>cache_cleanup\<close> the node
  \<open>b\<close> and its stored error are gone.
\<close>

theorem failed_fetch_counterexample:
  "cache_download (fetch_all 7 150) (cold_cache 100) uri_a_b
     = Inr (failed_cache, 7, False, [Rsync_download uri_a_b]) \<and>
   uri_node failed_cache uri_a_b = Some (Node ''b'' CNF_DIRECT 0 150 7 []) \<and>
   was_recently_downloaded (startup_time failed_cache) (Node ''b'' CNF_DIRECT 0 150 7 []) \<and>
   cache_cleanup all_paths_ok ''repo'' failed_cache (Dir True [(''a'', Dir True [])]) NoEnt
     = Inr (cold_cache 100, Some (Dir True []), Some NoEnt) \<and>
   uri_node (cold_cache 100) uri_a_b = None"
  by code_simp

text \<open>
  Claim C6 as stated fails: \<open>b.cer\<close> is fresh with a zero error, the directory lists
  the name and \<open>stat\<close> reports ENOENT for it (a dangling link), and the sweep deletes
  the node and the nodes above it.
\<close>

theorem active_node_counterexample:
  "uri_node b_cer_cache uri_b_cer
     = Some (Node ''b.cer'' (CNF_DIRECT OR CNF_SUCCESS OR CNF_FILE) 150 150 0 []) \<and>
   was_recently_downloaded (startup_time b_cer_cache)
     (Node ''b.cer'' (CNF_DIRECT OR CNF_SUCCESS OR CNF_FILE) 150 150 0 []) \<and>
   cache_cleanup all_paths_ok ''repo'' b_cer_cache NoEnt
       (Dir True [(''h'', Dir True [(''a'', Dir True [(''b.cer'', NoEnt)])])])
     = Inr (cold_cache 100, Some NoEnt, Some (Dir True [])) \<and>
   uri_node (cold_cache 100) uri_b_cer = None"
  by code_simp

text \<open>
  Claim C5, amended. A node whose last fetch of this run failed is not protected by
  the sweep: when it is not a root and has no children, and its path can be built,
  stat'ed and, for a directory, opened, the sweep deletes it with its error. Where
  the sweep retains a node, it leaves its error, flags and timestamps as they were.
\<close>

theorem failed_node_swept:
  assumes "error node \<noteq> 0"
  shows "(\<forall>n' f'. cleanup_recursive path_ok startup pb is_root node f = (Some n', f') \<longrightarrow>
            basename n' = basename node \<and> flags n' = flags node \<and> error n' = error node \<and>
            ts_attempt n' = ts_attempt node \<and> ts_success n' = ts_success node) \<and>
         (\<not> is_root \<and> children node = [] \<and> path_ok (pb @ [basename node]) \<and>
          f \<noteq> Stat_error \<and> \<not> opendir_fails f \<longrightarrow>
            fst (cleanup_recursive path_ok startup pb is_root node f) = None)"
  using assms cleanup_keeps_fields[of path_ok startup pb is_root node f]
    stale_leaf_deleted[of is_root node path_ok pb f startup]
  by blast

text \<open>
  For Claim C5: the failed node \<open>b\<close> over a regular file is deleted; a root whose own
  fetch failed is retained with its error.
\<close>

theorem failed_node_swept_witness:
  "error (Node ''b'' CNF_DIRECT 0 150 7 []) \<noteq> 0 \<and>
   children (Node ''b'' CNF_DIRECT 0 150 7 []) = [] \<and>
   all_paths_ok ([''repo'', ''rsync'', ''a''] @ [basename (Node ''b'' CNF_DIRECT 0 150 7 [])]) \<and>
   \<not> opendir_fails Reg \<and>
   fst (cleanup_recursive all_paths_ok 100 [''repo'', ''rsync'', ''a''] False
          (Node ''b'' CNF_DIRECT 0 150 7 []) Reg) = None \<and>
   cleanup_recursive all_paths_ok 100 [''repo''] True
          (Node ''rsync'' CNF_DIRECT 0 150 7 []) (Dir True [])
     = (Some (Node ''rsync'' CNF_DIRECT 0 150 7 []), Some (Dir True [])) \<and>
   error (Node ''rsync'' CNF_DIRECT 0 150 7 []) = 7"
proof -
  have h1: "error (Node ''b'' CNF_DIRECT 0 150 7 []) \<noteq> 0" by simp
  have h2: "\<not> False \<and> children (Node ''b'' CNF_DIRECT 0 150 7 []) = [] \<and>
      all_paths_ok ([''repo'', ''rsync'', ''a''] @ [basename (Node ''b'' CNF_DIRECT 0 150 7 [])]) \<and>
      Reg \<noteq> Stat_error \<and> \<not> opendir_fails Reg"
    by (simp add: all_paths_ok_def opendir_fails_def)
  have h3: "error (Node ''rsync'' CNF_DIRECT 0 150 7 []) \<noteq> 0" by simp
  have h4: "cleanup_recursive all_paths_ok 100 [''repo''] True
          (Node ''rsync'' CNF_DIRECT 0 150 7 []) (Dir True [])
     = (Some (Node ''rsync'' CNF_DIRECT 0 150 7 []), Some (Dir True []))"
    by code_simp
  from failed_node_swept[OF h1, of all_paths_ok 100 "[''repo'', ''rsync'', ''a'']" False Reg] h2
  have "fst (cleanup_recursive all_paths_ok 100 [''repo'', ''rsync'', ''a''] False
          (Node ''b'' CNF_DIRECT 0 150 7 []) Reg) = None"
    by blast
  moreover from failed_node_swept[OF h3, of all_paths_ok 100 "[''repo'']" True "Dir True []"] h4
  have "error (Node ''rsync'' CNF_DIRECT 0 150 7 []) = 7" by simp
  ultimately show ?thesis using h1 h2 h4 by simp
qed

text \<open>
  For Claim C6: the sweep of the cache that fetched https://h/a/b.cer, over the disk the
  fetch left:
  the visit of \<open>b.cer\<close> changes nothing, and neither does the whole sweep.
\<close>

theorem active_node_untouched_witness:
  "was_recently_downloaded 100
     (Node ''b.cer'' (CNF_DIRECT OR CNF_SUCCESS OR CNF_FILE OR CNF_FOUND) 150 150 0 []) \<and>
   Reg \<noteq> NoEnt \<and>
   cleanup_recursive all_paths_ok 100 [''repo'', ''https'', ''h'', ''a''] False
     (Node ''b.cer'' (CNF_DIRECT OR CNF_SUCCESS OR CNF_FILE OR CNF_FOUND) 150 150 0 []) Reg
     = (Some (Node ''b.cer'' (CNF_DIRECT OR CNF_SUCCESS OR CNF_FILE OR CNF_FOUND) 150 150 0 []),
        Some Reg) \<and>
   cache_cleanup all_paths_ok ''repo'' b_cer_cache NoEnt
       (Dir True [(''h'', Dir True [(''a'', Dir True [(''b.cer'', Reg)])])])
     = Inr (b_cer_cache, Some NoEnt,
            Some (Dir True [(''h'', Dir True [(''a'', Dir True [(''b.cer'', Reg)])])]))"
proof -
  have h1: "was_recently_downloaded 100
     (Node ''b.cer'' (CNF_DIRECT OR CNF_SUCCESS OR CNF_FILE OR CNF_FOUND) 150 150 0 [])"
    by code_simp
  have h2: "error (Node ''b.cer'' (CNF_DIRECT OR CNF_SUCCESS OR CNF_FILE OR CNF_FOUND) 150 150 0 []) = 0"
    by simp
  have h3: "Reg \<noteq> NoEnt" by simp
  have h4: "cache_cleanup all_paths_ok ''repo'' b_cer_cache NoEnt
       (Dir True [(''h'', Dir True [(''a'', Dir True [(''b.cer'', Reg)])])])
     = Inr (b_cer_cache, Some NoEnt,
            Some (Dir True [(''h'', Dir True [(''a'', Dir True [(''b.cer'', Reg)])])]))"
    by code_simp
  from active_node_untouched[OF h1 h2 h3, of all_paths_ok "[''repo'', ''https'', ''h'', ''a'']" False]
    h1 h3 h4
  show ?thesis by simp
qed

section \<open>Properties of the metadata load\<close>

text \<open>\<open>shadowed_cache\<close> is what a run started at 100 loads from \<open>shadowed_metadata\<close>.\<close>

lemma shadowed_loaded:
  "cache_prepare example_strptime 100 (Some shadowed_metadata) initial_cache = Inr shadowed_cache"
  by code_simp

lemma json2children_None:
  "json2children tt js = None \<longleftrightarrow> (\<exists>c\<in>set js. json2node tt c = None)"
  by (induction js) (auto split: option.splits)

lemma fields_not_ok_None: "\<not> node_fields_ok tt j \<Longrightarrow> json2node tt j = None"
  by (subst json2node.simps)
     (auto simp: node_fields_ok_def json_is_array_def split: option.splits json.splits)

lemma child_None:
  "json_object_get (Some j) ''children'' = Some (JArray js) \<Longrightarrow> c \<in> set js \<Longrightarrow>
     json2node tt c = None \<Longrightarrow> json2node tt j = None"
proof -
  assume "json_object_get (Some j) ''children'' = Some (JArray js)" "c \<in> set js"
    "json2node tt c = None"
  moreover from this have "json2children tt js = None"
    by (auto simp: json2children_None)
  ultimately show ?thesis
    by (subst json2node.simps) (simp split: option.splits)
qed

lemma malformed_None: "malformed_within tt j \<Longrightarrow> json2node tt j = None"
  by (induction rule: malformed_within.induct) (auto intro: fields_not_ok_None child_None)

lemma None_malformed:
  "json2node tt j = None \<Longrightarrow> malformed_within tt j"
  "json2children tt js = None \<Longrightarrow> \<exists>c\<in>set js. malformed_within tt c"
proof (induction tt j and tt js rule: json2node_json2children.induct)
  case (1 tt json)
  show ?case
  proof (cases "node_fields_ok tt json")
    case False
    then show ?thesis by (rule malformed_within.here)
  next
    case True
    show ?thesis
    proof (cases "json_object_get (Some json) ''children''")
      case None
      with True "1.prems" show ?thesis
        by (subst (asm) json2node.simps)
           (auto simp: node_fields_ok_def split: option.splits)
    next
      case (Some ch)
      with True obtain js where js: "ch = JArray js"
        by (auto simp: node_fields_ok_def json_is_array_def split: json.splits)
      from True Some js "1.prems" have n: "json2children tt js = None"
        by (subst (asm) json2node.simps)
           (auto simp: node_fields_ok_def split: option.splits)
      from True Some js obtain s tss tsa where
        "json_string_value (json_object_get (Some json) ''basename'') = Some s"
        "json_tt_value tt (json_object_get (Some json) ''ts_success'') = Some tss"
        "json_tt_value tt (json_object_get (Some json) ''ts_attempt'') = Some tsa"
        "json_is_integer (json_object_get (Some json) ''flags'')"
        "json_is_integer (json_object_get (Some json) ''error'')"
        by (auto simp: node_fields_ok_def)
      with "1.IH"[of s tss tsa ch js] n Some js
      obtain c where "c \<in> set js" "malformed_within tt c" by auto
      with Some js show ?thesis by (auto intro: malformed_within.below)
    qed
  qed
next
  case (2 tt)
  then show ?case by simp
next
  case (3 tt j js)
  then show ?case by (auto split: option.splits)
qed

lemma load_elements_skip:
  "json2node tt bad = None \<Longrightarrow>
     load_elements tt (xs @ bad # ys) roots = load_elements tt (xs @ ys) roots"
  by (induction xs arbitrary: roots) (auto split: option.splits prod.splits)

lemma load_roots: "rsync (load_metadata_json tt file c) \<noteq> None \<and> https (load_metadata_json tt file c) \<noteq> None"
  by (auto simp: load_metadata_json_def init_root_def split: prod.splits option.splits)

text \<open>
  Claim C4, amended. A malformed field in a node object, at any depth, makes
  \<open>json2node\<close> discard the whole element of the root array that holds it (the node, its
  ancestors and everything loaded below them), and only then; the load goes on as if
  the element were not in the array, and it never aborts: both roots exist afterwards.
\<close>

theorem malformed_element_discarded:
  "(json2node tt j = None \<longleftrightarrow> malformed_within tt j) \<and>
   (malformed_within tt j \<longrightarrow>
      load_metadata_json tt (Some (JArray (xs @ j # ys))) c
        = load_metadata_json tt (Some (JArray (xs @ ys))) c) \<and>
   rsync (load_metadata_json tt file c) \<noteq> None \<and>
   https (load_metadata_json tt file c) \<noteq> None"
  using malformed_None[of tt j] None_malformed(1)[of tt j] load_roots
  by (auto simp: load_metadata_json_def load_elements_skip)

text \<open>
  Claim C9, amended. A second \<open>cache_prepare\<close> does not load metadata again and leaves
  both trees as they are, but it stamps \<open>startup_time\<close> with the current time.
\<close>

theorem prepare_again:
  assumes "cache_prepare tt now1 file1 c0 = Inr c1" and "now2 \<noteq> -1"
  shows "cache_prepare tt' now2 file2 c1 = Inr (c1\<lparr>startup_time := now2\<rparr>)"
proof -
  from assms(1) have "rsync c1 \<noteq> None"
    using load_roots by (auto simp: cache_prepare_def split: if_splits)
  with assms(2) show ?thesis by (auto simp: cache_prepare_def)
qed

text \<open>
  Claim C9 as stated fails: the run prepared at time 100 holds the node \<open>a\<close> with
  \<open>ts_attempt\<close> 120, fresh; after a second \<open>cache_prepare\<close> at time 200 the startup
  time is 200 and the node is no longer fresh.
\<close>

theorem prepare_twice_counterexample:
  "cache_prepare example_strptime 100 (Some shadowed_metadata) initial_cache
     = Inr shadowed_cache \<and>
   cache_prepare example_strptime 200 (Some shadowed_metadata) shadowed_cache
     = Inr (shadowed_cache\<lparr>startup_time := 200\<rparr>) \<and>
   startup_time shadowed_cache = 100 \<and>
   startup_time (shadowed_cache\<lparr>startup_time := 200\<rparr>) = 200 \<and>
   uri_node shadowed_cache \<lparr>uri_get_type = UT_RSYNC, uri_get_local = ''rsync/a''\<rparr>
     = Some (Node ''a'' (CNF_DIRECT OR CNF_SUCCESS) 120 120 0 [Node ''b'' CNF_DIRECT 0 120 5 []]) \<and>
   was_recently_downloaded (startup_time shadowed_cache)
     (Node ''a'' (CNF_DIRECT OR CNF_SUCCESS) 120 120 0 [Node ''b'' CNF_DIRECT 0 120 5 []]) \<and>
   \<not> was_recently_downloaded (startup_time (shadowed_cache\<lparr>startup_time := 200\<rparr>))
     (Node ''a'' (CNF_DIRECT OR CNF_SUCCESS) 120 120 0 [Node ''b'' CNF_DIRECT 0 120 5 []])"
  by code_simp

text \<open>
  For Claim C9: the second \<open>cache_prepare\<close> is offered another document and does not
  read it.
\<close>

theorem prepare_again_witness:
  "cache_prepare example_strptime 100 (Some shadowed_metadata) initial_cache
     = Inr shadowed_cache \<and>
   (200 :: time_t) \<noteq> -1 \<and>
   cache_prepare example_strptime 200 (Some broken_metadata) shadowed_cache
     = Inr (shadowed_cache\<lparr>startup_time := 200\<rparr>)"
proof -
  have h1: "cache_prepare example_strptime 100 (Some shadowed_metadata) initial_cache
     = Inr shadowed_cache"
    by code_simp
  have h2: "(200 :: time_t) \<noteq> -1" by simp
  from prepare_again[OF h1 h2, of example_strptime "Some broken_metadata"] h1 h2
  show ?thesis by simp
qed

text \<open>
  Claim C4 as stated fails: the child \<open>b\<close> of the root \<open>rsync\<close> has a string for its
  flags; its sibling \<open>a\<close> is well formed, and so are the fields of the root; neither
  is loaded: the root \<open>rsync\<close> of the cache is the empty one made afterwards.
\<close>

theorem malformed_child_counterexample:
  "json2node example_strptime object_a = Some (Node ''a'' 3 120 120 0 []) \<and>
   json2node example_strptime object_b = None \<and>
   node_fields_ok example_strptime broken_rsync_element \<and>
   cache_prepare example_strptime 100 (Some broken_metadata) initial_cache
     = Inr \<lparr>rsync = Some (new_node ''rsync''),
            https = Some (Node ''https'' 0 120 120 0 []),
            startup_time = 100\<rparr> \<and>
   uri_node \<lparr>rsync = Some (new_node ''rsync''),
             https = Some (Node ''https'' 0 120 120 0 []),
             startup_time = 100\<rparr>
      \<lparr>uri_get_type = UT_RSYNC, uri_get_local = ''rsync/a''\<rparr> = None"
  by code_simp

text \<open>
  For Claim C4: the element \<open>rsync\<close> of that document is dropped and the element
  \<open>https\<close> is loaded.
\<close>

theorem malformed_element_discarded_witness:
  "malformed_within example_strptime broken_rsync_element \<and>
   json2node example_strptime broken_rsync_element = None \<and>
   load_metadata_json example_strptime (Some (JArray ([] @ broken_rsync_element # [https_element])))
       initial_cache
     = load_metadata_json example_strptime (Some (JArray ([] @ [https_element]))) initial_cache \<and>
   load_metadata_json example_strptime (Some (JArray ([] @ [https_element]))) initial_cache
     = \<lparr>rsync = Some (new_node ''rsync''), https = Some (Node ''https'' 0 120 120 0 []),
        startup_time = 0\<rparr>"
proof -
  have b: "malformed_within example_strptime object_b"
    by (rule malformed_within.here) code_simp
  have g: "json_object_get (Some broken_rsync_element) ''children''
             = Some (JArray [object_a, object_b])"
    by code_simp
  have m: "malformed_within example_strptime broken_rsync_element"
    by (rule malformed_within.below[OF g _ b]) simp
  have l: "load_metadata_json example_strptime (Some (JArray ([] @ [https_element]))) initial_cache
     = \<lparr>rsync = Some (new_node ''rsync''), https = Some (Node ''https'' 0 120 120 0 []),
        startup_time = 0\<rparr>"
    by code_simp
  from malformed_element_discarded[of example_strptime broken_rsync_element "[]"
      "[https_element]" initial_cache] m l
  show ?thesis by simp
qed

section \<open>Properties of the overlay loader\<close>

lemma translate_loop_segment:
  "length xs = i \<Longrightarrow> i + length ys = n \<Longrightarrow>
     translate_loop i n (xs @ ys @ zs) = xs @ map url_to_std ys @ zs"
proof (induction ys arbitrary: xs i)
  case Nil
  then show ?case by (subst translate_loop.simps) simp
next
  case (Cons y ys)
  have "translate_loop i n (xs @ (y # ys) @ zs)
          = translate_loop (Suc i) n ((xs @ [url_to_std y]) @ ys @ zs)"
    using Cons.prems
    by (subst translate_loop.simps) (auto simp: url_to_std_def nth_append list_update_append)
  also have "\<dots> = (xs @ [url_to_std y]) @ map url_to_std ys @ zs"
    using Cons.prems by (intro Cons.IH) auto
  finally show ?case by simp
qed

lemma pad_mod: "(if n mod 4 > 0 then 4 - n mod 4 else 0) = (4 - n mod 4) mod (4::nat)"
proof (cases "n mod 4 = 0")
  case True
  then show ?thesis by simp
next
  case False
  then have "4 - n mod 4 < 4" by simp
  with False show ?thesis by simp
qed

lemma str_copy_padded:
  "translate_loop 0 (length s)
     (memcpy (replicate (length s + (if length s mod 4 > 0 then 4 - length s mod 4 else 0)) CHR ''='')
        s (length s))
   = base64_padded s"
proof -
  define k where "k = (4 - length s mod 4) mod 4"
  have k: "(if length s mod 4 > 0 then 4 - length s mod 4 else 0) = k"
    unfolding k_def by (rule pad_mod)
  have "memcpy (replicate (length s + k) CHR ''='') s (length s)
          = [] @ s @ replicate k CHR ''=''"
    by (simp add: memcpy_def)
  moreover have "translate_loop 0 (length s) ([] @ s @ replicate k CHR ''='')
          = [] @ map url_to_std s @ replicate k CHR ''=''"
    by (rule translate_loop_segment) simp_all
  ultimately show ?thesis
    unfolding k by (simp add: base64_padded_def k_def)
qed

lemma padded_length: "length (base64_padded s) mod 4 = 0"
proof -
  have "(n + (4 - n mod 4) mod 4) mod 4 = 0" for n :: nat
  proof -
    have "(n + (4 - n mod 4) mod 4) mod 4 = (n mod 4 + (4 - n mod 4) mod 4) mod 4"
      by (simp add: mod_add_left_eq)
    moreover have "n mod 4 = 0 \<or> n mod 4 = 1 \<or> n mod 4 = 2 \<or> n mod 4 = 3"
      by linarith
    ultimately show ?thesis by auto
  qed
  then show ?thesis by (simp add: base64_padded_def)
qed

text \<open>
  Claim C8. \<open>decode_base64url\<close> rejects every string that contains \<open>=\<close>; for any other
  string it hands to \<open>base64_decode\<close> the input with \<open>-\<close> replaced by \<open>+\<close>, \<open>_\<close> by \<open>/\<close>
  and \<open>=\<close> appended up to a multiple of 4, and returns exactly the bytes decoded,
  unless the decoder fails or decodes nothing, which is an error.
\<close>

theorem decode_base64url_refines:
  "(CHR ''='' \<in> set s \<longrightarrow> decode_base64url b s = Inl (- EINVAL)) \<and>
   (CHR ''='' \<notin> set s \<longrightarrow>
      length (base64_padded s) mod 4 = 0 \<and>
      decode_base64url b s =
        (case b (base64_padded s) (EVP_DECODE_LENGTH (length (base64_padded s))) of
           (err, dec) \<Rightarrow>
             if err \<noteq> 0 then Inl err else if dec = [] then Inl (- EINVAL) else Inr dec))"
proof -
  have "decode_base64url b s =
        (case b (base64_padded s) (EVP_DECODE_LENGTH (length (base64_padded s))) of
           (err, dec) \<Rightarrow>
             if err \<noteq> 0 then Inl err else if dec = [] then Inl (- EINVAL) else Inr dec)"
    if "CHR ''='' \<notin> set s"
    using that unfolding decode_base64url_def Let_def str_copy_padded
    by (simp split: prod.splits)
  moreover have "decode_base64url b s = Inl (- EINVAL)" if "CHR ''='' \<in> set s"
    using that by (simp add: decode_base64url_def)
  ultimately show ?thesis using padded_length by blast
qed

text \<open>
  Claim C7, amended. A record (prefix or BGPsec, filter or assertion) whose \<open>asn\<close> is an
  integer below 0 or above \<open>UINT32_MAX\<close> is rejected, and so is an assertion whose
  \<open>asn\<close> is 0.
\<close>

theorem asn_out_of_range_rejected:
  assumes "json_object_get (Some object) ''asn'' = Some (JInteger a)"
    and "a < 0 \<or> UINT32_MAX < a \<or> (a = 0 \<and> is_assertion)"
  shows "load_single_prefix K A object is_assertion = Some (- EINVAL) \<and>
         load_single_bgpsec K B object is_assertion = - EINVAL"
proof -
  from assms(1) have obj: "json_is_object (Some object)"
    by (auto simp: json_object_get_def json_is_object_def split: json.splits)
  from assms have "fst (set_asn K object is_assertion 0 (SLURM_COM_FLAG_NONE K)) = - EINVAL"
    by (auto simp: set_asn_def json_get_int_def json_is_integer_def json_integer_value_def
          UINT32_MAX_def EINVAL_def)
  with obj show ?thesis
    by (auto simp: load_single_prefix_def load_single_bgpsec_def EINVAL_def split: prod.splits)
qed

text \<open>
  Claim C7 as stated fails: 0 is outside the range, and a filter whose \<open>asn\<close> is 0 is
  accepted, prefix filter and BGPsec filter alike (0 is read as \<open>no asn\<close>).
\<close>

theorem asn_zero_filter_counterexample:
  "json_object_get (Some (JObject [(''asn'', JInteger 0)])) ''asn'' = Some (JInteger 0) \<and>
   \<not> (1 \<le> (0::int) \<and> (0::int) \<le> 2 ^ 32 - 1) \<and>
   load_single_prefix example_flags refusing_address_fns (JObject [(''asn'', JInteger 0)]) False
     = Some 0 \<and>
   load_single_bgpsec example_flags example_base64_decode (JObject [(''asn'', JInteger 0)]) False
     = 0"
  by (simp add: load_single_prefix_def load_single_bgpsec_def json_is_object_def set_asn_def
      json_get_int_def json_object_get_def json_is_integer_def json_integer_value_def
      set_prefix_def set_ski_def set_router_pub_key_def json_get_string_def
      set_max_prefix_length_def set_comment_def example_flags_def)

text \<open>
  For Claim C7: a filter with the \<open>asn\<close> 4294967296 and an assertion with the \<open>asn\<close> 0.
\<close>

theorem asn_out_of_range_rejected_witness:
  "json_object_get (Some (JObject [(''asn'', JInteger 4294967296)])) ''asn''
     = Some (JInteger 4294967296) \<and>
   UINT32_MAX < 4294967296 \<and>
   load_single_prefix example_flags refusing_address_fns
     (JObject [(''asn'', JInteger 4294967296)]) False = Some (- EINVAL) \<and>
   load_single_bgpsec example_flags example_base64_decode
     (JObject [(''asn'', JInteger 4294967296)]) False = - EINVAL \<and>
   json_object_get (Some (JObject [(''asn'', JInteger 0)])) ''asn'' = Some (JInteger 0) \<and>
   load_single_prefix example_flags refusing_address_fns
     (JObject [(''asn'', JInteger 0)]) True = Some (- EINVAL) \<and>
   load_single_bgpsec example_flags example_base64_decode
     (JObject [(''asn'', JInteger 0)]) True = - EINVAL"
proof -
  have h1: "json_object_get (Some (JObject [(''asn'', JInteger 4294967296)])) ''asn''
     = Some (JInteger 4294967296)"
    by (simp add: json_object_get_def)
  have h2: "(4294967296::int) < 0 \<or> UINT32_MAX < 4294967296 \<or> ((4294967296::int) = 0 \<and> False)"
    by (simp add: UINT32_MAX_def)
  have h3: "json_object_get (Some (JObject [(''asn'', JInteger 0)])) ''asn'' = Some (JInteger 0)"
    by (simp add: json_object_get_def)
  have h4: "(0::int) < 0 \<or> UINT32_MAX < 0 \<or> ((0::int) = 0 \<and> True)"
    by simp
  from asn_out_of_range_rejected[OF h1 h2, of example_flags refusing_address_fns
      example_base64_decode]
    asn_out_of_range_rejected[OF h3 h4, of example_flags refusing_address_fns
      example_base64_decode]
    h1 h3
  show ?thesis by (simp add: UINT32_MAX_def)
qed

text \<open>
  For Claim C8: a padded input is rejected; \<open>-_8\<close> is decoded as the base64 text
  \<open>+/8=\<close>.
\<close>

theorem decode_base64url_refines_witness:
  "CHR ''='' \<in> set ''TQ=='' \<and>
   decode_base64url example_base64_decode ''TQ=='' = Inl (- EINVAL) \<and>
   CHR ''='' \<notin> set ''-_8'' \<and>
   base64_padded ''-_8'' = ''+/8='' \<and>
   example_base64_decode ''+/8='' (EVP_DECODE_LENGTH 4) = (0, [251, 255]) \<and>
   decode_base64url example_base64_decode ''-_8'' = Inr [251, 255]"
proof -
  have h1: "CHR ''='' \<in> set ''TQ==''" by simp
  have h2: "CHR ''='' \<notin> set ''-_8''" by simp
  have h3: "base64_padded ''-_8'' = ''+/8=''"
    by (simp add: base64_padded_def url_to_std_def)
  have h4: "example_base64_decode ''+/8='' n = (0, [251, 255])" for n
    by (simp add: example_base64_decode_def b64_value_def)
  from decode_base64url_refines[of "''TQ==''" example_base64_decode] h1
  have r1: "decode_base64url example_base64_decode ''TQ=='' = Inl (- EINVAL)"
    by blast
  from decode_base64url_refines[of "''-_8''" example_base64_decode] h2
  have "decode_base64url example_base64_decode ''-_8'' =
        (case example_base64_decode (base64_padded ''-_8'')
                (EVP_DECODE_LENGTH (length (base64_padded ''-_8''))) of
           (err, dec) \<Rightarrow>
             if err \<noteq> 0 then Inl err else if dec = [] then Inl (- EINVAL) else Inr dec)"
    by blast
  with h3 h4 have r2: "decode_base64url example_base64_decode ''-_8'' = Inr [251, 255]"
    by simp
  from h1 h2 h3 h4 r1 r2 show ?thesis by blast
qed

end
